theory Spec2Isabelle
  imports Main
begin

section \<open>JavaScript values used by the task tracker\<close>

text \<open>
  Numbers are the integer-valued doubles of the exactly representable range (epoch
  milliseconds, day counts) together with \<open>NaN\<close> and the two infinities, which
  \<^verbatim>\<open>Number.isFinite\<close> tells apart. Fractional values and rounding of doubles are
  not modelled.
\<close>

datatype jsnum = Fin int | NaN | PosInf | NegInf

text \<open>
  A metrics field of a task object (\<^verbatim>\<open>createdAt\<close>, \<^verbatim>\<open>activatedAt\<close>,
  \<^verbatim>\<open>completedAt\<close>, \<^verbatim>\<open>timeSpentMs\<close>): the key is absent (it reads as
  \<^verbatim>\<open>undefined\<close>), holds \<^verbatim>\<open>null\<close>, or holds a number.
\<close>

datatype jsval = Absent | Null | Num jsnum

fun js_add :: "jsnum \<Rightarrow> jsnum \<Rightarrow> jsnum" where
  "js_add (Fin a) (Fin b) = Fin (a + b)"
| "js_add NaN _ = NaN"
| "js_add _ NaN = NaN"
| "js_add PosInf NegInf = NaN"
| "js_add NegInf PosInf = NaN"
| "js_add PosInf _ = PosInf"
| "js_add _ PosInf = PosInf"
| "js_add NegInf _ = NegInf"
| "js_add _ NegInf = NegInf"

fun js_neg :: "jsnum \<Rightarrow> jsnum" where
  "js_neg (Fin a) = Fin (- a)"
| "js_neg NaN = NaN"
| "js_neg PosInf = NegInf"
| "js_neg NegInf = PosInf"

definition js_sub :: "jsnum \<Rightarrow> jsnum \<Rightarrow> jsnum" where
  "js_sub a b = js_add a (js_neg b)"

text \<open>\<^verbatim>\<open>a < b\<close> on numbers: false whenever an operand is \<open>NaN\<close>.\<close>

fun js_lt :: "jsnum \<Rightarrow> jsnum \<Rightarrow> bool" where
  "js_lt (Fin a) (Fin b) = (a < b)"
| "js_lt NaN _ = False"
| "js_lt _ NaN = False"
| "js_lt PosInf _ = False"
| "js_lt _ NegInf = False"
| "js_lt _ PosInf = True"
| "js_lt NegInf _ = True"

definition js_gt :: "jsnum \<Rightarrow> jsnum \<Rightarrow> bool" where
  "js_gt a b = js_lt b a"

text \<open>\<^verbatim>\<open>Math.max(0, x)\<close>: \<open>NaN\<close> when \<open>x\<close> is.\<close>

fun math_max0 :: "jsnum \<Rightarrow> jsnum" where
  "math_max0 (Fin a) = Fin (max 0 a)"
| "math_max0 NaN = NaN"
| "math_max0 PosInf = PosInf"
| "math_max0 NegInf = Fin 0"

text \<open>The conversion of a field value to a number, as the arithmetic operators apply it.\<close>

fun toNumber :: "jsval \<Rightarrow> jsnum" where
  "toNumber Absent = NaN"
| "toNumber Null = Fin 0"
| "toNumber (Num n) = n"

text \<open>\<^verbatim>\<open>typeof v === "number"\<close>\<close>

fun typeof_number :: "jsval \<Rightarrow> bool" where
  "typeof_number (Num _) = True"
| "typeof_number _ = False"

text \<open>\<^verbatim>\<open>Number.isFinite(v)\<close>: no conversion, so only a finite number passes.\<close>

fun isFinite :: "jsval \<Rightarrow> bool" where
  "isFinite (Num (Fin _)) = True"
| "isFinite _ = False"

section \<open>The task record and the form data\<close>

text \<open>
  \<^verbatim>\<open>completed\<close> is read only through its truthiness, which the boolean holds.
  \<^verbatim>\<open>dueDate\<close> is \<open>None\<close> when the key is absent or holds no string.
\<close>

record task =
  task_id :: string
  title :: string
  dueDate :: "string option"
  priority :: string
  completed :: bool
  createdAt :: jsval
  activatedAt :: jsval
  completedAt :: jsval
  timeSpentMs :: jsval

text \<open>The object \<^verbatim>\<open>readForm\<close> builds; \<open>d_id\<close> is \<open>None\<close> for a new assignment.\<close>

record form_data =
  d_id :: "string option"
  d_title :: string
  d_dueDate :: "string option"
  d_priority :: string
  d_completed :: bool

section \<open>Time on task: the lifecycle engine\<close>

definition STATUS_ACTIVE :: string where
  "STATUS_ACTIVE = ''active''"

definition STATUS_COMPLETED :: string where
  "STATUS_COMPLETED = ''completed''"

text \<open>
  The guards \<^verbatim>\<open>task &&\<close> and \<^verbatim>\<open>!task\<close> of the source concern a null argument;
  every call in the file passes an object found in \<^verbatim>\<open>tasks\<close>, and the functions
  below take a task record. \<^verbatim>\<open>calcTimeSpentMs\<close>, a helper exposed for tests,
  keeps its null branch.
\<close>

definition getTaskStatus :: "task \<Rightarrow> string" where
  "getTaskStatus t = (if completed t then STATUS_COMPLETED else STATUS_ACTIVE)"

text \<open>
  \<^verbatim>\<open>normalizeTaskMetrics(task)\<close>; \<open>now\<close> is the value \<^verbatim>\<open>Date.now()\<close> returns
  if the function calls it. The five statements of the source are the five steps.
\<close>

definition normalizeTaskMetrics :: "int \<Rightarrow> task \<Rightarrow> task" where
  "normalizeTaskMetrics now t =
     (let t1 = (if \<not> typeof_number (timeSpentMs t) \<or> \<not> isFinite (timeSpentMs t)
                then t\<lparr>timeSpentMs := Num (Fin 0)\<rparr> else t);
          t2 = (if activatedAt t1 = Absent then t1\<lparr>activatedAt := Null\<rparr> else t1);
          t3 = (if completedAt t2 = Absent then t2\<lparr>completedAt := Null\<rparr> else t2);
          t4 = (if getTaskStatus t3 = STATUS_ACTIVE
                   \<and> (activatedAt t3 = Null \<or> \<not> isFinite (activatedAt t3))
                then t3\<lparr>activatedAt := Num (Fin now)\<rparr> else t3)
      in if getTaskStatus t4 = STATUS_COMPLETED then t4\<lparr>activatedAt := Null\<rparr> else t4)"

text \<open>The object \<^verbatim>\<open>handleStatusChange\<close> returns.\<close>

datatype status_result =
    Rejected string
  | Noop
  | Changed string

fun ok :: "status_result \<Rightarrow> bool" where
  "ok (Rejected _) = False"
| "ok Noop = True"
| "ok (Changed _) = True"

fun noop :: "status_result \<Rightarrow> bool" where
  "noop Noop = True"
| "noop _ = False"

text \<open>
  \<^verbatim>\<open>handleStatusChange(task, nextStatus)\<close>. \<open>now\<close> is the reading of the clock in
  its first line, \<open>now_norm\<close> the later reading inside \<^verbatim>\<open>normalizeTaskMetrics\<close>.
  The result pairs the returned object with the task as the call leaves it.
\<close>

definition handleStatusChange :: "int \<Rightarrow> int \<Rightarrow> task \<Rightarrow> string \<Rightarrow> status_result \<times> task" where
  "handleStatusChange now now_norm t nextStatus =
     (let currentStatus = getTaskStatus t in
      if nextStatus \<noteq> STATUS_ACTIVE \<and> nextStatus \<noteq> STATUS_COMPLETED
        then (Rejected ''invalid_next_status'', t)
      else if currentStatus = nextStatus then (Noop, t)
      else
        let t1 = normalizeTaskMetrics now_norm t in
        if nextStatus = STATUS_ACTIVE
          then (Changed STATUS_ACTIVE,
                t1\<lparr>completed := False, completedAt := Null, activatedAt := Num (Fin now)\<rparr>)
        else
          let t2 = t1\<lparr>completed := True\<rparr>;
              t3 = (if typeof_number (activatedAt t2) \<and> isFinite (activatedAt t2)
                    then (let delta = js_sub (Fin now) (toNumber (activatedAt t2))
                          in if js_gt delta (Fin 0)
                             then t2\<lparr>timeSpentMs := Num (js_add (toNumber (timeSpentMs t2)) delta)\<rparr>
                             else t2)
                    else t2)
          in (Changed STATUS_COMPLETED,
              t3\<lparr>completedAt := Num (Fin now), activatedAt := Null\<rparr>))"

text \<open>\<^verbatim>\<open>calcTimeSpentMs(task, atTimeMs)\<close>; the source assigns to nothing.\<close>

definition calcTimeSpentMs :: "task option \<Rightarrow> int \<Rightarrow> jsnum" where
  "calcTimeSpentMs task atTimeMs =
     (case task of
        None \<Rightarrow> Fin 0
      | Some t \<Rightarrow>
          let base = (if typeof_number (timeSpentMs t) then toNumber (timeSpentMs t) else Fin 0);
              active = (if getTaskStatus t = STATUS_ACTIVE \<and> typeof_number (activatedAt t)
                        then math_max0 (js_sub (Fin atTimeMs) (toNumber (activatedAt t)))
                        else Fin 0)
          in js_add base active)"

section \<open>Create and update\<close>

text \<open>
  \<^verbatim>\<open>createTask(data)\<close>: \<open>new_id\<close> is what \<^verbatim>\<open>makeId()\<close> returns, \<open>now\<close> the
  clock reading. \<open>createTask_object\<close> is the object built, \<open>createTask\<close> pushes it.
\<close>

definition createTask_object :: "string \<Rightarrow> int \<Rightarrow> form_data \<Rightarrow> task" where
  "createTask_object new_id now data =
     (let t = \<lparr>task_id = new_id, title = d_title data, dueDate = d_dueDate data,
               priority = d_priority data, completed = d_completed data,
               createdAt = Num (Fin now),
               activatedAt = Null, completedAt = Null, timeSpentMs = Num (Fin 0)\<rparr>
      in if completed t then t\<lparr>completedAt := Num (Fin now)\<rparr>
         else t\<lparr>activatedAt := Num (Fin now)\<rparr>)"

definition createTask :: "string \<Rightarrow> int \<Rightarrow> form_data \<Rightarrow> task list \<Rightarrow> string \<times> task list" where
  "createTask new_id now data tasks = (new_id, tasks @ [createTask_object new_id now data])"

text \<open>
  The body of \<^verbatim>\<open>updateTask(data)\<close> after the task \<open>t\<close> was found. The clock is
  read by \<^verbatim>\<open>normalizeTaskMetrics\<close> (\<open>n1\<close>), then either by
  \<^verbatim>\<open>handleStatusChange\<close> (\<open>n2\<close>, and \<open>n3\<close> inside its normalisation) or by the
  last branch (\<open>n4\<close>).
\<close>

definition updateTask_found :: "int \<Rightarrow> int \<Rightarrow> int \<Rightarrow> int \<Rightarrow> form_data \<Rightarrow> task \<Rightarrow> task" where
  "updateTask_found n1 n2 n3 n4 data t =
     (let prevStatus = getTaskStatus t;
          t1 = t\<lparr>title := d_title data, dueDate := d_dueDate data,
                 priority := d_priority data, completed := d_completed data\<rparr>;
          nextStatus = getTaskStatus t1;
          t2 = normalizeTaskMetrics n1 t1
      in if prevStatus \<noteq> nextStatus then snd (handleStatusChange n2 n3 t2 nextStatus)
         else if nextStatus = STATUS_ACTIVE
                 \<and> (activatedAt t2 = Null \<or> \<not> isFinite (activatedAt t2))
           then t2\<lparr>activatedAt := Num (Fin n4)\<rparr>
         else t2)"

text \<open>
  \<^verbatim>\<open>updateTask(data)\<close> on the task list: \<^verbatim>\<open>tasks.find\<close> takes the first task
  with the id, and a list without it is left alone.
\<close>

fun updateTask :: "int \<Rightarrow> int \<Rightarrow> int \<Rightarrow> int \<Rightarrow> form_data \<Rightarrow> task list \<Rightarrow> task list" where
  "updateTask n1 n2 n3 n4 data [] = []"
| "updateTask n1 n2 n3 n4 data (x # xs) =
     (if Some (task_id x) = d_id data then updateTask_found n1 n2 n3 n4 data x # xs
      else x # updateTask n1 n2 n3 n4 data xs)"

text \<open>
  \<^verbatim>\<open>toggleComplete(id)\<close>, the explicit toggle: the state change of the found task.
\<close>

definition toggleComplete_found :: "int \<Rightarrow> int \<Rightarrow> task \<Rightarrow> status_result \<times> task" where
  "toggleComplete_found now now_norm t =
     handleStatusChange now now_norm t (if completed t then STATUS_ACTIVE else STATUS_COMPLETED)"

text \<open>
  The invariant of the data model: exactly one of \<^verbatim>\<open>activatedAt\<close> and
  \<^verbatim>\<open>completedAt\<close> is set, \<^verbatim>\<open>completedAt\<close> on a completed task and
  \<^verbatim>\<open>activatedAt\<close> on an active one. A field is set when it holds a value other than
  \<^verbatim>\<open>null\<close>.
\<close>

fun is_set :: "jsval \<Rightarrow> bool" where
  "is_set (Num _) = True"
| "is_set _ = False"

definition timestamps_mirror_completed :: "task \<Rightarrow> bool" where
  "timestamps_mirror_completed t =
     (is_set (activatedAt t) = (\<not> completed t) \<and> is_set (completedAt t) = completed t)"

text \<open>
  The time a transition starts from: the stored \<^verbatim>\<open>timeSpentMs\<close> when it is a finite
  number, and 0 for a field that is absent, null or not finite.
\<close>

fun finite_or_zero :: "jsval \<Rightarrow> int" where
  "finite_or_zero (Num (Fin T)) = T"
| "finite_or_zero _ = 0"

section \<open>Dates\<close>

text \<open>
  Two things the functions below use belong to the host and not to the application, and
  are taken as parameters. \<open>Number_integer s\<close> is the value of \<^verbatim>\<open>Number(s)\<close> when
  \<^verbatim>\<open>Number.isInteger\<close> accepts it, and \<open>None\<close> when it does not. \<open>tzShift n\<close> places
  the local midnight that begins day \<open>n\<close> (days counted from 1 January 1970) on the time
  line: its time value is \<open>n * msPerDay + tzShift n\<close>.
\<close>

record host =
  Number_integer :: "string \<Rightarrow> int option"
  tzShift :: "int \<Rightarrow> int"

definition msPerDay :: int where
  "msPerDay = 24 * 60 * 60 * 1000"

text \<open>
  A \<^verbatim>\<open>Date\<close> object, as far as the application reads it: the invalid date, or the
  local year, month (0 to 11) and day of the month. The application only ever builds
  dates at a local midnight, and reads no time of day.
\<close>

datatype jsdate = InvalidDate | LocalDay int int int

fun getFullYear :: "jsdate \<Rightarrow> jsnum" where
  "getFullYear InvalidDate = NaN"
| "getFullYear (LocalDay y m d) = Fin y"

fun getMonth :: "jsdate \<Rightarrow> jsnum" where
  "getMonth InvalidDate = NaN"
| "getMonth (LocalDay y m d) = Fin m"

fun getDate :: "jsdate \<Rightarrow> jsnum" where
  "getDate InvalidDate = NaN"
| "getDate (LocalDay y m d) = Fin d"

text \<open>\<^verbatim>\<open>a === b\<close> on numbers: \<open>NaN\<close> equals nothing.\<close>

fun js_eq :: "jsnum \<Rightarrow> jsnum \<Rightarrow> bool" where
  "js_eq NaN _ = False"
| "js_eq _ NaN = False"
| "js_eq a b = (a = b)"

definition js_le :: "jsnum \<Rightarrow> jsnum \<Rightarrow> bool" where
  "js_le a b = (js_lt a b \<or> js_eq a b)"

definition js_ge :: "jsnum \<Rightarrow> jsnum \<Rightarrow> bool" where
  "js_ge a b = js_le b a"

fun math_abs :: "jsnum \<Rightarrow> jsnum" where
  "math_abs (Fin a) = Fin \<bar>a\<bar>"
| "math_abs NaN = NaN"
| "math_abs PosInf = PosInf"
| "math_abs NegInf = PosInf"

text \<open>
  The proleptic Gregorian calendar of the language standard: leap years, the length of a
  month, the day number of 1 January of a year, and of a day of a month.
\<close>

definition isLeap :: "int \<Rightarrow> bool" where
  "isLeap y = (y mod 4 = 0 \<and> (y mod 100 \<noteq> 0 \<or> y mod 400 = 0))"

definition daysInMonth :: "int \<Rightarrow> int \<Rightarrow> int" where
  "daysInMonth y m =
     (if m = 1 then (if isLeap y then 29 else 28)
      else if m = 3 \<or> m = 5 \<or> m = 8 \<or> m = 10 then 30 else 31)"

definition dayFromYear :: "int \<Rightarrow> int" where
  "dayFromYear y =
     365 * (y - 1970) + (y - 1969) div 4 - (y - 1901) div 100 + (y - 1601) div 400"

definition daysBeforeMonth :: "int \<Rightarrow> int \<Rightarrow> int" where
  "daysBeforeMonth y m =
     (if m \<le> 0 then 0
      else if m = 1 then 31
      else (if isLeap y then 1 else 0) +
        (if m = 2 then 59 else if m = 3 then 90 else if m = 4 then 120
         else if m = 5 then 151 else if m = 6 then 181 else if m = 7 then 212
         else if m = 8 then 243 else if m = 9 then 273 else if m = 10 then 304
         else 334))"

definition dayNumber :: "int \<Rightarrow> int \<Rightarrow> int \<Rightarrow> int" where
  "dayNumber y m d = dayFromYear y + daysBeforeMonth y m + d - 1"

text \<open>
  A day of the month outside the month carries into the neighbouring months, as the
  constructor does with \<^verbatim>\<open>new Date(2024, 1, 30)\<close>. The month is between 0 and 11.
\<close>

function normDay :: "int \<Rightarrow> int \<Rightarrow> int \<Rightarrow> int \<times> int \<times> int" where
  "normDay y m d =
     (if d < 1 then
        (let y' = (if m = 0 then y - 1 else y); m' = (if m = 0 then 11 else m - 1)
         in normDay y' m' (d + daysInMonth y' m'))
      else if d > daysInMonth y m then
        (let y' = (if m = 11 then y + 1 else y); m' = (if m = 11 then 0 else m + 1)
         in normDay y' m' (d - daysInMonth y m))
      else (y, m, d))"
  by pat_completeness auto
termination
proof (relation "measure (\<lambda>(y, m, d). nat (if d < 1 then 32 - d else d))")
  show "wf (measure (\<lambda>(y, m, d). nat (if d < 1 then 32 - d else d)))" by simp
next
  fix y m d y' m' :: int
  assume "d < 1" "y' = (if m = 0 then y - 1 else y)" "m' = (if m = 0 then 11 else m - 1)"
  moreover have "28 \<le> daysInMonth y' m'" "daysInMonth y' m' \<le> 31"
    by (simp_all add: daysInMonth_def)
  ultimately show "((y', m', d + daysInMonth y' m'), (y, m, d))
      \<in> measure (\<lambda>(y, m, d). nat (if d < 1 then 32 - d else d))"
    by simp
next
  fix y m d y' m' :: int
  assume "\<not> d < 1" "daysInMonth y m < d"
  moreover have "28 \<le> daysInMonth y m"
    by (simp add: daysInMonth_def)
  ultimately show "((y', m', d - daysInMonth y m), (y, m, d))
      \<in> measure (\<lambda>(y, m, d). nat (if d < 1 then 32 - d else d))"
    by simp
qed

declare normDay.simps [simp del]

text \<open>
  \<^verbatim>\<open>new Date(y, m, d)\<close>: a local midnight. An argument that is no finite number gives
  the invalid date; a year from 0 to 99 means 1900 to 1999; months outside 0 to 11 carry
  into the year, days into the months; a time value beyond 8.64e15 ms gives the invalid
  date.
\<close>

definition maxTime :: int where
  "maxTime = 8640000000000000"

fun newDate :: "host \<Rightarrow> jsnum \<Rightarrow> jsnum \<Rightarrow> jsnum \<Rightarrow> jsdate" where
  "newDate H (Fin y) (Fin m) (Fin d) =
     (let yr = (if 0 \<le> y \<and> y \<le> 99 then 1900 + y else y);
          (yy, mm, dd) = normDay (yr + m div 12) (m mod 12) d;
          n = dayNumber yy mm dd
      in if \<bar>n * msPerDay + tzShift H n\<bar> \<le> maxTime then LocalDay yy mm dd else InvalidDate)"
| "newDate H _ _ _ = InvalidDate"

declare newDate.simps [simp del]

fun getTime :: "host \<Rightarrow> jsdate \<Rightarrow> jsnum" where
  "getTime H InvalidDate = NaN"
| "getTime H (LocalDay y m d) = Fin (dayNumber y m d * msPerDay + tzShift H (dayNumber y m d))"

text \<open>\<^verbatim>\<open>startOfDay(d)\<close>, \<^verbatim>\<open>startOfToday()\<close> (\<open>clock\<close> is \<^verbatim>\<open>new Date()\<close>) and \<^verbatim>\<open>sameDay(a, b)\<close>.\<close>

definition startOfDay :: "host \<Rightarrow> jsdate \<Rightarrow> jsdate" where
  "startOfDay H d = newDate H (getFullYear d) (getMonth d) (getDate d)"

definition startOfToday :: "host \<Rightarrow> jsdate \<Rightarrow> jsdate" where
  "startOfToday H clock = startOfDay H clock"

definition sameDay :: "jsdate \<Rightarrow> jsdate \<Rightarrow> bool" where
  "sameDay a b =
     (js_eq (getFullYear a) (getFullYear b)
      \<and> js_eq (getMonth a) (getMonth b)
      \<and> js_eq (getDate a) (getDate b))"

text \<open>
  \<^verbatim>\<open>Math.round(x / c)\<close> for a positive integer \<open>c\<close>: the nearest integer, a half
  rounded up.
\<close>

fun math_round_div :: "jsnum \<Rightarrow> int \<Rightarrow> jsnum" where
  "math_round_div (Fin a) c = Fin ((2 * a + c) div (2 * c))"
| "math_round_div NaN c = NaN"
| "math_round_div PosInf c = PosInf"
| "math_round_div NegInf c = NegInf"

definition diffDays :: "host \<Rightarrow> jsdate \<Rightarrow> jsdate \<Rightarrow> jsnum" where
  "diffDays H start end' =
     math_round_div
       (js_sub (getTime H (startOfDay H end')) (getTime H (startOfDay H start))) msPerDay"

text \<open>\<^verbatim>\<open>s.split(c)\<close> for a separator of one character.\<close>

fun split_on :: "char \<Rightarrow> string \<Rightarrow> string list" where
  "split_on c [] = [[]]"
| "split_on c (x # xs) =
     (if x = c then [] # split_on c xs
      else (case split_on c xs of
              [] \<Rightarrow> [[x]]
            | p # ps \<Rightarrow> (x # p) # ps))"

text \<open>
  \<^verbatim>\<open>parseYmd(ymd)\<close>. The argument is \<open>None\<close> when it is no string; the result is
  \<open>None\<close> for \<^verbatim>\<open>null\<close>.
\<close>

definition parseYmd :: "host \<Rightarrow> string option \<Rightarrow> jsdate option" where
  "parseYmd H ymd =
     (case ymd of
        None \<Rightarrow> None
      | Some s \<Rightarrow>
          if s = [] then None
          else
            let parts = split_on CHR ''-'' s in
            if length parts \<noteq> 3 then None
            else
              (case (Number_integer H (parts ! 0), Number_integer H (parts ! 1),
                     Number_integer H (parts ! 2)) of
                 (Some y, Some m, Some d) \<Rightarrow>
                   let dt = newDate H (Fin y) (Fin (m - 1)) (Fin d) in
                   if \<not> js_eq (getFullYear dt) (Fin y) \<or> \<not> js_eq (getMonth dt) (Fin (m - 1))
                      \<or> \<not> js_eq (getDate dt) (Fin d)
                   then None else Some dt
               | _ \<Rightarrow> None))"

section \<open>Deadline labels, categories and the sort order\<close>

text \<open>
  The text of a number in a template literal: decimal digits for an integer (the
  exponent form of integers from 1e21 on is not modelled).
\<close>

fun nat_digits :: "nat \<Rightarrow> string" where
  "nat_digits n =
     (if n < 10 then [char_of (48 + n)]
      else nat_digits (n div 10) @ [char_of (48 + n mod 10)])"

declare nat_digits.simps [simp del]

fun js_toString :: "jsnum \<Rightarrow> string" where
  "js_toString (Fin a) = (if a < 0 then CHR ''-'' # nat_digits (nat (- a)) else nat_digits (nat a))"
| "js_toString NaN = ''NaN''"
| "js_toString PosInf = ''Infinity''"
| "js_toString NegInf = ''-Infinity''"

record deadline_info =
  label_text :: string
  cls :: string

text \<open>\<^verbatim>\<open>getDeadlineInfo(task)\<close>; \<open>clock\<close> is the \<^verbatim>\<open>new Date()\<close> of \<^verbatim>\<open>startOfToday\<close>.\<close>

definition getDeadlineInfo :: "host \<Rightarrow> jsdate \<Rightarrow> task \<Rightarrow> deadline_info" where
  "getDeadlineInfo H clock t =
     (if completed t then \<lparr>label_text = ''Completed'', cls = ''done''\<rparr>
      else
        (case parseYmd H (dueDate t) of
           None \<Rightarrow> \<lparr>label_text = ''Due date invalid'', cls = ''safe''\<rparr>
         | Some due \<Rightarrow>
             let today = startOfToday H clock;
                 dueStart = startOfDay H due;
                 delta = diffDays H today dueStart
             in if js_lt delta (Fin 0) then
                  (let daysLate = math_abs delta;
                       dayWord = (if js_eq daysLate (Fin 1) then ''day'' else ''days'')
                   in \<lparr>label_text = ''Overdue by '' @ js_toString daysLate @ '' '' @ dayWord,
                        cls = ''overdue''\<rparr>)
                else if js_eq delta (Fin 0) then
                  \<lparr>label_text = ''Due today'', cls = ''warning''\<rparr>
                else if js_eq delta (Fin 1) then
                  \<lparr>label_text = ''Due tomorrow'', cls = ''warning''\<rparr>
                else if js_le delta (Fin 3) then
                  (let dayWord = (if js_eq delta (Fin 1) then ''day'' else ''days'')
                   in \<lparr>label_text = ''Due in '' @ js_toString delta @ '' '' @ dayWord,
                        cls = ''warning''\<rparr>)
                else
                  (let dayWord = (if js_eq delta (Fin 1) then ''day'' else ''days'')
                   in \<lparr>label_text = ''Due in '' @ js_toString delta @ '' '' @ dayWord,
                        cls = ''safe''\<rparr>)))"

text \<open>\<^verbatim>\<open>getCategory(task)\<close>\<close>

definition getCategory :: "host \<Rightarrow> jsdate \<Rightarrow> task \<Rightarrow> string" where
  "getCategory H clock t =
     (if completed t then ''completed''
      else
        (case parseYmd H (dueDate t) of
           None \<Rightarrow> ''upcoming''
         | Some due \<Rightarrow>
             let today = startOfToday H clock;
                 dueStart = startOfDay H due
             in if js_lt (getTime H dueStart) (getTime H today) then ''overdue''
                else if sameDay dueStart today then ''today''
                else
                  let daysUntil = diffDays H today dueStart in
                  if js_ge daysUntil (Fin 1) \<and> js_le daysUntil (Fin 7) then ''soon''
                  else ''upcoming''))"

text \<open>\<^verbatim>\<open>compareTasks(a, b)\<close>, with its local \<^verbatim>\<open>pScore\<close> and the \<^verbatim>\<open>x || 0\<close> of its last line.\<close>

definition pScore :: "string \<Rightarrow> int" where
  "pScore p = (if p = ''high'' then 3 else if p = ''medium'' then 2 else 1)"

fun or_zero :: "jsval \<Rightarrow> jsnum" where
  "or_zero Absent = Fin 0"
| "or_zero Null = Fin 0"
| "or_zero (Num NaN) = Fin 0"
| "or_zero (Num n) = n"

definition compareTasks :: "host \<Rightarrow> task \<Rightarrow> task \<Rightarrow> jsnum" where
  "compareTasks H a b =
     (let pDiff = pScore (priority b) - pScore (priority a) in
      if pDiff \<noteq> 0 then Fin pDiff
      else
        let ad = parseYmd H (dueDate a);
            bd = parseYmd H (dueDate b);
            byCreated = js_sub (or_zero (createdAt a)) (or_zero (createdAt b))
        in (case (ad, bd) of
              (Some da, Some db) \<Rightarrow>
                let dDiff = js_sub (getTime H (startOfDay H da)) (getTime H (startOfDay H db))
                in if \<not> js_eq dDiff (Fin 0) then dDiff else byCreated
            | (Some da, None) \<Rightarrow> Fin (- 1)
            | (None, Some db) \<Rightarrow> Fin 1
            | (None, None) \<Rightarrow> byCreated))"

text \<open>
  The order a sort by \<^verbatim>\<open>compareTasks\<close> uses: \<open>a\<close> goes before \<open>b\<close> when the result
  is negative, and the two are tied when it is neither negative nor positive.
\<close>

definition sorts_before :: "host \<Rightarrow> task \<Rightarrow> task \<Rightarrow> bool" where
  "sorts_before H a b = js_lt (compareTasks H a b) (Fin 0)"

definition tied :: "host \<Rightarrow> task \<Rightarrow> task \<Rightarrow> bool" where
  "tied H a b = (\<not> sorts_before H a b \<and> \<not> sorts_before H b a)"

text \<open>
  The assumption on the time zone under which a count of local days can be read off the
  time line: the shifts of any two local midnights differ by less than half a day.
\<close>

definition tz_ok :: "host \<Rightarrow> bool" where
  "tz_ok H = (\<forall>a b. \<bar>tzShift H a - tzShift H b\<bar> < msPerDay div 2)"

text \<open>A date that \<^verbatim>\<open>startOfDay\<close> returns as it is: a valid local day.\<close>

definition is_local_day :: "host \<Rightarrow> jsdate \<Rightarrow> bool" where
  "is_local_day H d = (d \<noteq> InvalidDate \<and> startOfDay H d = d)"

text \<open>The number of calendar days from one valid date to another.\<close>

fun dayOf :: "jsdate \<Rightarrow> int" where
  "dayOf (LocalDay y m d) = dayNumber y m d"
| "dayOf InvalidDate = 0"

definition daysAhead :: "jsdate \<Rightarrow> jsdate \<Rightarrow> int" where
  "daysAhead today due = dayOf due - dayOf today"

text \<open>A day of the month that lies within its month, the month within the year.\<close>

definition in_month :: "int \<Rightarrow> int \<Rightarrow> int \<Rightarrow> bool" where
  "in_month y m d = (0 \<le> m \<and> m \<le> 11 \<and> 1 \<le> d \<and> d \<le> daysInMonth y m)"

text \<open>
  The order of the specification, in its words: the higher priority first; among equal
  priorities the earlier due day first, a task with a valid due date before one without,
  two tasks without one tied at this step; then the earlier \<^verbatim>\<open>createdAt\<close>. The
  creation instant is read from the stored field by itself: a finite number is that
  instant, the infinities lie before and after every instant, and a field that is
  absent, null or no number at all stands for the instant 0.
\<close>

definition due_day :: "host \<Rightarrow> task \<Rightarrow> int option" where
  "due_day H t = map_option dayOf (parseYmd H (dueDate t))"

fun due_earlier :: "int option \<Rightarrow> int option \<Rightarrow> bool" where
  "due_earlier (Some a) (Some b) = (a < b)"
| "due_earlier (Some a) None = True"
| "due_earlier None _ = False"

fun instant_rank :: "jsval \<Rightarrow> int \<times> int" where
  "instant_rank (Num (Fin a)) = (0, a)"
| "instant_rank (Num NegInf) = (- 1, 0)"
| "instant_rank (Num PosInf) = (1, 0)"
| "instant_rank (Num NaN) = (0, 0)"
| "instant_rank Null = (0, 0)"
| "instant_rank Absent = (0, 0)"

definition created_earlier :: "jsval \<Rightarrow> jsval \<Rightarrow> bool" where
  "created_earlier x y =
     (fst (instant_rank x) < fst (instant_rank y)
      \<or> (fst (instant_rank x) = fst (instant_rank y)
          \<and> snd (instant_rank x) < snd (instant_rank y)))"

definition spec_before :: "host \<Rightarrow> task \<Rightarrow> task \<Rightarrow> bool" where
  "spec_before H a b =
     (pScore (priority b) < pScore (priority a)
      \<or> (pScore (priority a) = pScore (priority b)
          \<and> (due_earlier (due_day H a) (due_day H b)
              \<or> (due_day H a = due_day H b
                  \<and> created_earlier (createdAt a) (createdAt b)))))"

text \<open>
  The same order read off the three keys \<^verbatim>\<open>compareTasks\<close> computes, the last of them
  with the \<^verbatim>\<open>x || 0\<close> of the source; the proofs go through it.
\<close>

definition key_before :: "host \<Rightarrow> task \<Rightarrow> task \<Rightarrow> bool" where
  "key_before H a b =
     (pScore (priority b) < pScore (priority a)
      \<or> (pScore (priority a) = pScore (priority b)
          \<and> (due_earlier (due_day H a) (due_day H b)
              \<or> (due_day H a = due_day H b
                  \<and> js_lt (or_zero (createdAt a)) (or_zero (createdAt b))))))"

section \<open>Example tasks\<close>

text \<open>
  The tasks of the console tests \<^verbatim>\<open>TaskTrackerTests\<close> (the fields a test leaves
  out are given values here), a form that marks the first one completed, and a completed
  task stored by the version of the application that kept no metrics, and an active task
  stored with a start of session but no time.
\<close>

definition test_t1 :: task where
  "test_t1 = \<lparr>task_id = ''t1'', title = ''Essay'', dueDate = Some ''2024-05-01'',
     priority = ''high'', completed = False, createdAt = Num (Fin 1000),
     activatedAt = Num (Fin 1000), completedAt = Null, timeSpentMs = Num (Fin 0)\<rparr>"

definition test_t2 :: task where
  "test_t2 = \<lparr>task_id = ''t2'', title = ''Lab'', dueDate = Some ''2024-05-03'',
     priority = ''medium'', completed = True, createdAt = Num (Fin 1000),
     activatedAt = Null, completedAt = Num (Fin 4000), timeSpentMs = Num (Fin 3000)\<rparr>"

definition edit_t1_completed :: form_data where
  "edit_t1_completed = \<lparr>d_id = Some ''t1'', d_title = ''Essay'',
     d_dueDate = Some ''2024-05-01'', d_priority = ''high'', d_completed = True\<rparr>"

definition edit_t1_title :: form_data where
  "edit_t1_title = \<lparr>d_id = Some ''t1'', d_title = ''Essay, second draft'',
     d_dueDate = Some ''2024-05-01'', d_priority = ''high'', d_completed = False\<rparr>"

definition legacy_open :: task where
  "legacy_open = \<lparr>task_id = ''open'', title = ''Draft'', dueDate = Some ''2024-04-02'',
     priority = ''low'', completed = False, createdAt = Num (Fin 500),
     activatedAt = Num (Fin 1000), completedAt = Null, timeSpentMs = Absent\<rparr>"

definition legacy_done :: task where
  "legacy_done = \<lparr>task_id = ''old'', title = ''Quiz'', dueDate = Some ''2024-04-01'',
     priority = ''low'', completed = True, createdAt = Num (Fin 500),
     activatedAt = Absent, completedAt = Absent, timeSpentMs = Absent\<rparr>"

text \<open>
  A host for examples. Its \<open>Number_integer\<close> reads the strings of decimal digits, the
  empty string as 0, as \<^verbatim>\<open>Number\<close> does, and rejects every other string; its local
  time is one hour ahead of universal time on the days of even number and two hours ahead
  on the others.
\<close>

fun digits_value :: "int \<Rightarrow> string \<Rightarrow> int option" where
  "digits_value acc [] = Some acc"
| "digits_value acc (c # cs) =
     (if (48 :: nat) \<le> of_char c \<and> of_char c \<le> (57 :: nat)
      then digits_value (10 * acc + (of_char c - 48)) cs else None)"

definition example_host :: host where
  "example_host =
     \<lparr>Number_integer = digits_value 0,
      tzShift = (\<lambda>n. if n mod 2 = 0 then - 3600000 else - 7200000)\<rparr>"

text \<open>
  The first of May 2024, the three tasks of the ordering example of the specification
  (due five, two and one day after it), and a task whose due date is no calendar date.
\<close>

definition may_1 :: jsdate where
  "may_1 = LocalDay 2024 4 1"

definition sort_high_5 :: task where
  "sort_high_5 = \<lparr>task_id = ''a'', title = ''Report'', dueDate = Some ''2024-05-06'',
     priority = ''high'', completed = False, createdAt = Num (Fin 100),
     activatedAt = Num (Fin 100), completedAt = Null, timeSpentMs = Num (Fin 0)\<rparr>"

definition sort_high_2 :: task where
  "sort_high_2 = \<lparr>task_id = ''b'', title = ''Slides'', dueDate = Some ''2024-05-03'',
     priority = ''high'', completed = False, createdAt = Num (Fin 200),
     activatedAt = Num (Fin 200), completedAt = Null, timeSpentMs = Num (Fin 0)\<rparr>"

definition sort_medium_1 :: task where
  "sort_medium_1 = \<lparr>task_id = ''c'', title = ''Reading'', dueDate = Some ''2024-05-02'',
     priority = ''medium'', completed = False, createdAt = Num (Fin 300),
     activatedAt = Num (Fin 300), completedAt = Null, timeSpentMs = Num (Fin 0)\<rparr>"

definition no_date :: task where
  "no_date = \<lparr>task_id = ''d'', title = ''Notes'', dueDate = Some ''2024-02-30'',
     priority = ''low'', completed = False, createdAt = Num (Fin 400),
     activatedAt = Num (Fin 400), completedAt = Null, timeSpentMs = Num (Fin 0)\<rparr>"

definition sort_high_5_twin :: task where
  "sort_high_5_twin = sort_high_5\<lparr>task_id := ''e'', title := ''Report, appendix''\<rparr>"

definition sort_high_5_later :: task where
  "sort_high_5_later = sort_high_5\<lparr>task_id := ''f'', createdAt := Num (Fin 150)\<rparr>"

definition may_7 :: jsdate where
  "may_7 = LocalDay 2024 4 7"

section \<open>Properties of the lifecycle engine\<close>

lemma getTaskStatus_eq [simp]:
  "(getTaskStatus t = STATUS_COMPLETED) = completed t"
  "(getTaskStatus t = STATUS_ACTIVE) = (\<not> completed t)"
  by (simp_all add: getTaskStatus_def STATUS_ACTIVE_def STATUS_COMPLETED_def)

lemma status_distinct [simp]:
  "STATUS_ACTIVE \<noteq> STATUS_COMPLETED" "STATUS_COMPLETED \<noteq> STATUS_ACTIVE"
  by (simp_all add: STATUS_ACTIVE_def STATUS_COMPLETED_def)

lemma js_gt_Fin [simp]: "js_gt (Fin a) (Fin b) = (b < a)"
  by (simp add: js_gt_def)

lemma js_sub_Fin [simp]: "js_sub (Fin a) (Fin b) = Fin (a - b)"
  by (simp add: js_sub_def)

text \<open>
  What normalisation does to a task, field by field: it resets a time that is no finite
  number, gives an active task a start of session when it has none, clears the start of
  session of a completed task, and turns an absent \<^verbatim>\<open>completedAt\<close> into null.
\<close>

lemma normalizeTaskMetrics_fields:
  "completed (normalizeTaskMetrics now t) = completed t"
  "timeSpentMs (normalizeTaskMetrics now t) =
     (if isFinite (timeSpentMs t) then timeSpentMs t else Num (Fin 0))"
  "activatedAt (normalizeTaskMetrics now t) =
     (if completed t then Null
      else if isFinite (activatedAt t) then activatedAt t else Num (Fin now))"
  "completedAt (normalizeTaskMetrics now t) =
     (if completedAt t = Absent then Null else completedAt t)"
  "task_id (normalizeTaskMetrics now t) = task_id t"
  "title (normalizeTaskMetrics now t) = title t"
  "dueDate (normalizeTaskMetrics now t) = dueDate t"
  "priority (normalizeTaskMetrics now t) = priority t"
  "createdAt (normalizeTaskMetrics now t) = createdAt t"
  by (cases "timeSpentMs t" rule: isFinite.cases;
      cases "activatedAt t" rule: isFinite.cases;
      simp add: normalizeTaskMetrics_def Let_def)+

lemma isFinite_typeof [simp]: "isFinite v \<Longrightarrow> typeof_number v"
  by (cases v rule: isFinite.cases) simp_all

lemma normalizeTaskMetrics_typed:
  "isFinite (timeSpentMs t) \<Longrightarrow> completedAt t \<noteq> Absent \<Longrightarrow>
   (completed t \<longrightarrow> activatedAt t = Null) \<Longrightarrow> (\<not> completed t \<longrightarrow> isFinite (activatedAt t)) \<Longrightarrow>
   normalizeTaskMetrics now t = t"
  by (cases "completed t") (auto simp add: normalizeTaskMetrics_def Let_def)

lemma complete_from_active:
  assumes "\<not> completed t" and "activatedAt t = Num (Fin A)"
  shows "fst (handleStatusChange B nn t STATUS_COMPLETED) = Changed STATUS_COMPLETED"
    and "completed (snd (handleStatusChange B nn t STATUS_COMPLETED))"
    and "completedAt (snd (handleStatusChange B nn t STATUS_COMPLETED)) = Num (Fin B)"
    and "activatedAt (snd (handleStatusChange B nn t STATUS_COMPLETED)) = Null"
    and "timeSpentMs t = Num (Fin T) \<Longrightarrow>
         snd (handleStatusChange B nn t STATUS_COMPLETED) =
           t\<lparr>completed := True, timeSpentMs := Num (Fin (T + max 0 (B - A))),
             completedAt := Num (Fin B), activatedAt := Null\<rparr>"
  using assms
  by (auto simp add: handleStatusChange_def Let_def normalizeTaskMetrics_fields max_def)

lemma reopen_from_completed:
  assumes "completed t" and "isFinite (timeSpentMs t)"
  shows "handleStatusChange C nn t STATUS_ACTIVE =
      (Changed STATUS_ACTIVE, t\<lparr>completed := False, completedAt := Null, activatedAt := Num (Fin C)\<rparr>)"
  using assms
  by (auto simp add: handleStatusChange_def Let_def normalizeTaskMetrics_fields)

lemma normalizeTaskMetrics_time:
  "timeSpentMs (normalizeTaskMetrics now t) = Num (Fin (finite_or_zero (timeSpentMs t)))"
  by (cases "timeSpentMs t" rule: finite_or_zero.cases)
     (simp_all add: normalizeTaskMetrics_fields)

lemma complete_from_active_time:
  assumes "\<not> completed t" and "activatedAt t = Num (Fin A)"
  shows "timeSpentMs (snd (handleStatusChange B nn t STATUS_COMPLETED))
     = Num (Fin (finite_or_zero (timeSpentMs t) + max 0 (B - A)))"
  using assms
  by (auto simp add: handleStatusChange_def Let_def normalizeTaskMetrics_fields(1,3)
      normalizeTaskMetrics_time max_def)

lemma reopen_from_completed_any:
  assumes "completed t"
  shows "handleStatusChange C nn t STATUS_ACTIVE =
      (Changed STATUS_ACTIVE,
       t\<lparr>timeSpentMs := Num (Fin (finite_or_zero (timeSpentMs t))), completed := False,
         completedAt := Null, activatedAt := Num (Fin C)\<rparr>)"
proof -
  have "normalizeTaskMetrics nn t
      = t\<lparr>timeSpentMs := Num (Fin (finite_or_zero (timeSpentMs t))),
          activatedAt := Null,
          completedAt := (if completedAt t = Absent then Null else completedAt t)\<rparr>"
    using assms
    by (cases "timeSpentMs t" rule: finite_or_zero.cases)
       (simp_all add: normalizeTaskMetrics_def Let_def)
  then show ?thesis
    using assms by (simp add: handleStatusChange_def Let_def)
qed

lemma handleStatusChange_noop:
  "getTaskStatus t = s \<Longrightarrow> handleStatusChange now nn t s = (Noop, t)"
  by (auto simp add: handleStatusChange_def Let_def getTaskStatus_def)

lemma handleStatusChange_rejected:
  "s \<noteq> STATUS_ACTIVE \<Longrightarrow> s \<noteq> STATUS_COMPLETED \<Longrightarrow>
   handleStatusChange now nn t s = (Rejected ''invalid_next_status'', t)"
  by (simp add: handleStatusChange_def Let_def)

lemma handleStatusChange_reaches_target:
  "s = STATUS_ACTIVE \<or> s = STATUS_COMPLETED \<Longrightarrow>
   getTaskStatus (snd (handleStatusChange now nn t s)) = s"
  by (auto simp add: handleStatusChange_def Let_def getTaskStatus_def)

lemma handleStatusChange_transition_mirror:
  "s = STATUS_ACTIVE \<or> s = STATUS_COMPLETED \<Longrightarrow> getTaskStatus t \<noteq> s \<Longrightarrow>
   timestamps_mirror_completed (snd (handleStatusChange now nn t s))"
  by (auto simp add: handleStatusChange_def Let_def timestamps_mirror_completed_def)

lemma normalizeTaskMetrics_mirror:
  "timestamps_mirror_completed t \<Longrightarrow> timestamps_mirror_completed (normalizeTaskMetrics now t)"
  by (cases "activatedAt t" rule: isFinite.cases; cases "completedAt t")
     (auto simp add: timestamps_mirror_completed_def normalizeTaskMetrics_fields)

lemma handleStatusChange_mirror:
  "timestamps_mirror_completed t \<Longrightarrow>
   timestamps_mirror_completed (snd (handleStatusChange now nn t s))"
  by (auto simp add: handleStatusChange_def Let_def timestamps_mirror_completed_def)

lemma createTask_object_mirror:
  "timestamps_mirror_completed (createTask_object new_id now data)"
  by (simp add: createTask_object_def Let_def timestamps_mirror_completed_def)

lemma updateTask_found_flip:
  "d_completed data \<noteq> completed t \<Longrightarrow>
   updateTask_found n1 n2 n3 n4 data t =
     normalizeTaskMetrics n1 (t\<lparr>title := d_title data, dueDate := d_dueDate data,
        priority := d_priority data, completed := d_completed data\<rparr>)"
  by (auto simp add: updateTask_found_def Let_def handleStatusChange_noop getTaskStatus_def
       normalizeTaskMetrics_fields)

lemma updateTask_found_same_status:
  "d_completed data = completed t \<Longrightarrow>
   updateTask_found n1 n2 n3 n4 data t =
     normalizeTaskMetrics n1 (t\<lparr>title := d_title data, dueDate := d_dueDate data,
        priority := d_priority data, completed := d_completed data\<rparr>)"
  by (auto simp add: updateTask_found_def Let_def getTaskStatus_def
       normalizeTaskMetrics_fields)

lemma js_add_zero [simp]: "js_add n (Fin 0) = n"
  by (cases n) simp_all

lemma js_lt_irrefl [simp]: "\<not> js_lt n n"
  by (cases n) simp_all

lemma js_add_max0_not_below: "\<not> js_lt (js_add n (math_max0 x)) n"
  by (cases n; cases x) (simp_all add: max_def)

subsection \<open>Completing an active task\<close>

text \<open>
  Claim C3, as stated, fails on an active task whose stored time is no finite number:
  the transition first normalises the task, which writes 0 over such a time. Completed
  at 500 after an activation at 1000, the task stored without a time does not keep its
  field unchanged, and the task stored with an infinite time ends with less.
\<close>

theorem C3_counterexample:
  "\<not> completed legacy_open \<and> activatedAt legacy_open = Num (Fin 1000)
   \<and> timeSpentMs (snd (handleStatusChange 500 501 legacy_open STATUS_COMPLETED))
       \<noteq> timeSpentMs legacy_open
   \<and> timeSpentMs (snd (handleStatusChange 500 501
         (legacy_open\<lparr>timeSpentMs := Num PosInf\<rparr>) STATUS_COMPLETED)) = Num (Fin 0)
   \<and> js_lt (Fin 0) PosInf"
  by (simp add: handleStatusChange_def normalizeTaskMetrics_def Let_def getTaskStatus_def
      STATUS_ACTIVE_def STATUS_COMPLETED_def legacy_open_def)

text \<open>
  Claim C3, amended. An active task whose \<^verbatim>\<open>activatedAt\<close> is the finite number \<open>A\<close>,
  given the target Completed at the instant \<open>B\<close>: the call succeeds, the task is
  completed, \<^verbatim>\<open>completedAt\<close> is \<open>B\<close> and \<^verbatim>\<open>activatedAt\<close> is null. Its time
  afterwards is \<open>T + max 0 (B - A)\<close>, where \<open>T\<close> is the stored time when that is a
  finite number and 0 when it is absent, null or not finite. So a finite stored time
  \<open>T\<close> grows by \<open>B - A\<close> when \<open>A < B\<close>, is unchanged when the clock went back
  (\<open>B \<le> A\<close>), and never gets less.
\<close>

theorem C3_complete_adds_session_time:
  assumes "\<not> completed t" and "activatedAt t = Num (Fin A)"
  shows "ok (fst (handleStatusChange B nn t STATUS_COMPLETED))
    \<and> completed (snd (handleStatusChange B nn t STATUS_COMPLETED))
    \<and> completedAt (snd (handleStatusChange B nn t STATUS_COMPLETED)) = Num (Fin B)
    \<and> activatedAt (snd (handleStatusChange B nn t STATUS_COMPLETED)) = Null
    \<and> timeSpentMs (snd (handleStatusChange B nn t STATUS_COMPLETED))
        = Num (Fin (finite_or_zero (timeSpentMs t) + max 0 (B - A)))
    \<and> (\<not> isFinite (timeSpentMs t) \<longrightarrow>
        timeSpentMs (snd (handleStatusChange B nn t STATUS_COMPLETED))
          = Num (Fin (max 0 (B - A))))
    \<and> (\<forall>T. timeSpentMs t = Num (Fin T) \<longrightarrow>
          timeSpentMs (snd (handleStatusChange B nn t STATUS_COMPLETED))
            = Num (Fin (T + max 0 (B - A)))
        \<and> (A < B \<longrightarrow> timeSpentMs (snd (handleStatusChange B nn t STATUS_COMPLETED))
                        = Num (Fin (T + (B - A))))
        \<and> (B \<le> A \<longrightarrow> timeSpentMs (snd (handleStatusChange B nn t STATUS_COMPLETED))
                        = Num (Fin T))
        \<and> T \<le> T + max 0 (B - A))"
proof -
  have "ok (fst (handleStatusChange B nn t STATUS_COMPLETED))"
    using complete_from_active(1) [OF assms] by simp
  moreover have time: "timeSpentMs (snd (handleStatusChange B nn t STATUS_COMPLETED))
        = Num (Fin (finite_or_zero (timeSpentMs t) + max 0 (B - A)))"
    using assms by (rule complete_from_active_time)
  moreover have "\<not> isFinite (timeSpentMs t) \<longrightarrow>
        timeSpentMs (snd (handleStatusChange B nn t STATUS_COMPLETED))
          = Num (Fin (max 0 (B - A)))"
    unfolding time by (cases "timeSpentMs t" rule: finite_or_zero.cases) simp_all
  moreover have "\<forall>T. timeSpentMs t = Num (Fin T) \<longrightarrow>
      timeSpentMs (snd (handleStatusChange B nn t STATUS_COMPLETED))
        = Num (Fin (T + max 0 (B - A)))"
    using complete_from_active(5) [OF assms] by simp
  ultimately show ?thesis
    using complete_from_active(2,3,4) [OF assms] by (simp add: max_def)
qed

theorem C3_witness:
  "\<not> completed test_t1 \<and> activatedAt test_t1 = Num (Fin 1000)
   \<and> timeSpentMs test_t1 = Num (Fin 0)
   \<and> timeSpentMs (snd (handleStatusChange 4000 4001 test_t1 STATUS_COMPLETED)) = Num (Fin 3000)
   \<and> timeSpentMs (snd (handleStatusChange 900 901 test_t1 STATUS_COMPLETED)) = Num (Fin 0)
   \<and> completedAt (snd (handleStatusChange 4000 4001 test_t1 STATUS_COMPLETED)) = Num (Fin 4000)
   \<and> activatedAt (snd (handleStatusChange 4000 4001 test_t1 STATUS_COMPLETED)) = Null
   \<and> completed (snd (handleStatusChange 4000 4001 test_t1 STATUS_COMPLETED))
   \<and> \<not> completed legacy_open \<and> activatedAt legacy_open = Num (Fin 1000)
   \<and> \<not> isFinite (timeSpentMs legacy_open)
   \<and> timeSpentMs (snd (handleStatusChange 4000 4001 legacy_open STATUS_COMPLETED))
       = Num (Fin 3000)"
proof -
  have h1: "\<not> completed test_t1" by (simp add: test_t1_def)
  have h2: "activatedAt test_t1 = Num (Fin 1000)" by (simp add: test_t1_def)
  have h3: "timeSpentMs test_t1 = Num (Fin 0)" by (simp add: test_t1_def)
  have g1: "\<not> completed legacy_open" by (simp add: legacy_open_def)
  have g2: "activatedAt legacy_open = Num (Fin 1000)" by (simp add: legacy_open_def)
  have g3: "\<not> isFinite (timeSpentMs legacy_open)" by (simp add: legacy_open_def)
  have g4: "finite_or_zero (timeSpentMs legacy_open) = 0" by (simp add: legacy_open_def)
  show ?thesis
    using h1 h2 h3 g1 g2 g3 g4
      C3_complete_adds_session_time [OF h1 h2, of 4000 4001]
      C3_complete_adds_session_time [OF h1 h2, of 900 901]
      C3_complete_adds_session_time [OF g1 g2, of 4000 4001]
    by simp
qed

subsection \<open>The no-op and the rejected transition\<close>

text \<open>
  Claim C6. When the task already has the requested status, the call returns the no-op
  object (\<^verbatim>\<open>ok\<close> and \<^verbatim>\<open>noop\<close> both true) and the task is the one passed in,
  field for field. So a second call with the same recognised target returns the no-op
  object and leaves the task as the first call left it, whatever the clock reads.
\<close>

theorem C6_same_status_is_noop:
  "(getTaskStatus t = s \<longrightarrow>
      handleStatusChange now nn t s = (Noop, t) \<and> ok Noop \<and> noop Noop)
   \<and> (s = STATUS_ACTIVE \<or> s = STATUS_COMPLETED \<longrightarrow>
      handleStatusChange now2 nn2 (snd (handleStatusChange now nn t s)) s
        = (Noop, snd (handleStatusChange now nn t s)))"
  using handleStatusChange_noop [of t s now nn]
    handleStatusChange_noop [OF handleStatusChange_reaches_target, of s now2 nn2 now nn t]
  by simp

theorem C6_witness:
  "getTaskStatus test_t2 = STATUS_COMPLETED
   \<and> handleStatusChange 9000 9001 test_t2 STATUS_COMPLETED = (Noop, test_t2)
   \<and> handleStatusChange 9000 9001 (snd (handleStatusChange 4000 4001 test_t1 STATUS_COMPLETED))
        STATUS_COMPLETED
      = (Noop, snd (handleStatusChange 4000 4001 test_t1 STATUS_COMPLETED))"
proof -
  have h: "getTaskStatus test_t2 = STATUS_COMPLETED" by (simp add: test_t2_def)
  show ?thesis
    using h C6_same_status_is_noop [of test_t2 STATUS_COMPLETED 9000 9001 9000 9001]
      C6_same_status_is_noop [of test_t1 STATUS_COMPLETED 4000 4001 9000 9001]
    by simp
qed

text \<open>
  Claim C8. A target that is neither \<^verbatim>\<open>"active"\<close> nor \<^verbatim>\<open>"completed"\<close> is
  rejected: the returned object has \<^verbatim>\<open>ok\<close> false and the reason
  \<^verbatim>\<open>"invalid_next_status"\<close>, and the task is the one passed in, field for field.
\<close>

theorem C8_unknown_target_rejected:
  assumes "s \<noteq> STATUS_ACTIVE" and "s \<noteq> STATUS_COMPLETED"
  shows "handleStatusChange now nn t s = (Rejected ''invalid_next_status'', t)
    \<and> \<not> ok (fst (handleStatusChange now nn t s))
    \<and> snd (handleStatusChange now nn t s) = t"
  using handleStatusChange_rejected [OF assms] by simp

theorem C8_witness:
  "''bogus'' \<noteq> STATUS_ACTIVE \<and> ''bogus'' \<noteq> STATUS_COMPLETED
   \<and> handleStatusChange 4000 4001 test_t1 ''bogus'' = (Rejected ''invalid_next_status'', test_t1)
   \<and> \<not> ok (fst (handleStatusChange 4000 4001 test_t1 ''bogus''))"
proof -
  have h1: "''bogus'' \<noteq> STATUS_ACTIVE" by (simp add: STATUS_ACTIVE_def)
  have h2: "''bogus'' \<noteq> STATUS_COMPLETED" by (simp add: STATUS_COMPLETED_def)
  show ?thesis
    using h1 h2 C8_unknown_target_rejected [OF h1 h2, of 4000 4001 test_t1] by simp
qed

subsection \<open>Reopening a completed task\<close>

text \<open>
  Claim C7, as stated, fails on a completed task stored without a time: the transition
  first normalises the task, so reopening it writes 0 into \<^verbatim>\<open>timeSpentMs\<close>.
\<close>

theorem C7_counterexample:
  "completed legacy_done
   \<and> timeSpentMs (snd (handleStatusChange 5000 5001 legacy_done STATUS_ACTIVE))
       \<noteq> timeSpentMs legacy_done
   \<and> timeSpentMs (snd (handleStatusChange 5000 5001 legacy_done STATUS_ACTIVE)) = Num (Fin 0)"
  by (simp add: handleStatusChange_def normalizeTaskMetrics_def Let_def getTaskStatus_def
      STATUS_ACTIVE_def STATUS_COMPLETED_def legacy_done_def)

text \<open>
  Claim C7, amended. A completed task given the target Active at the instant \<open>C\<close>: the
  task afterwards is the task before with \<^verbatim>\<open>completed\<close> false, \<^verbatim>\<open>completedAt\<close>
  null, \<^verbatim>\<open>activatedAt\<close> \<open>C\<close>, and with \<^verbatim>\<open>timeSpentMs\<close> as stored when that is a
  finite number and 0 when it is absent, null or not finite; every other field is as it
  was. So a task active since \<open>A\<close>, completed at \<open>B\<close>, reopened at \<open>C\<close> and completed
  again at \<open>D\<close> has the time \<open>T + max 0 (B - A) + max 0 (D - C)\<close>, with \<open>T\<close> the finite
  stored time or 0; that is \<open>T + (B - A) + (D - C)\<close> when \<open>A \<le> B\<close> and \<open>C \<le> D\<close>, in
  which the gap \<open>C - B\<close> does not occur.
\<close>

theorem C7_reopen_keeps_time:
  "(completed t \<longrightarrow>
      handleStatusChange C nn t STATUS_ACTIVE
        = (Changed STATUS_ACTIVE,
           t\<lparr>timeSpentMs := Num (Fin (finite_or_zero (timeSpentMs t))), completed := False,
             completedAt := Null, activatedAt := Num (Fin C)\<rparr>)
      \<and> (isFinite (timeSpentMs t) \<longrightarrow>
          handleStatusChange C nn t STATUS_ACTIVE
            = (Changed STATUS_ACTIVE,
               t\<lparr>completed := False, completedAt := Null, activatedAt := Num (Fin C)\<rparr>)
          \<and> timeSpentMs (snd (handleStatusChange C nn t STATUS_ACTIVE)) = timeSpentMs t))
   \<and> (\<not> completed u \<and> activatedAt u = Num (Fin A) \<longrightarrow>
      timeSpentMs (snd (handleStatusChange D nc
         (snd (handleStatusChange C nb
            (snd (handleStatusChange B na u STATUS_COMPLETED)) STATUS_ACTIVE))
         STATUS_COMPLETED))
        = Num (Fin (finite_or_zero (timeSpentMs u) + max 0 (B - A) + max 0 (D - C)))
      \<and> (A \<le> B \<and> C \<le> D \<longrightarrow>
          timeSpentMs (snd (handleStatusChange D nc
             (snd (handleStatusChange C nb
                (snd (handleStatusChange B na u STATUS_COMPLETED)) STATUS_ACTIVE))
             STATUS_COMPLETED))
            = Num (Fin (finite_or_zero (timeSpentMs u) + (B - A) + (D - C)))))"
proof -
  have first: "handleStatusChange C nn t STATUS_ACTIVE
        = (Changed STATUS_ACTIVE,
           t\<lparr>timeSpentMs := Num (Fin (finite_or_zero (timeSpentMs t))), completed := False,
             completedAt := Null, activatedAt := Num (Fin C)\<rparr>)
      \<and> (isFinite (timeSpentMs t) \<longrightarrow>
          handleStatusChange C nn t STATUS_ACTIVE
            = (Changed STATUS_ACTIVE,
               t\<lparr>completed := False, completedAt := Null, activatedAt := Num (Fin C)\<rparr>)
          \<and> timeSpentMs (snd (handleStatusChange C nn t STATUS_ACTIVE)) = timeSpentMs t)"
    if "completed t"
    using reopen_from_completed_any [OF that, of C nn] reopen_from_completed [OF that, of C nn]
    by simp
  have second: "timeSpentMs (snd (handleStatusChange D nc
         (snd (handleStatusChange C nb
            (snd (handleStatusChange B na u STATUS_COMPLETED)) STATUS_ACTIVE))
         STATUS_COMPLETED))
        = Num (Fin (finite_or_zero (timeSpentMs u) + max 0 (B - A) + max 0 (D - C)))"
    if u: "\<not> completed u" "activatedAt u = Num (Fin A)"
  proof -
    let ?u1 = "snd (handleStatusChange B na u STATUS_COMPLETED)"
    let ?u2 = "snd (handleStatusChange C nb ?u1 STATUS_ACTIVE)"
    have c1: "completed ?u1"
      using complete_from_active(2) [OF u] .
    have t1: "timeSpentMs ?u1 = Num (Fin (finite_or_zero (timeSpentMs u) + max 0 (B - A)))"
      using u by (rule complete_from_active_time)
    have u2: "\<not> completed ?u2" "activatedAt ?u2 = Num (Fin C)"
      "timeSpentMs ?u2 = Num (Fin (finite_or_zero (timeSpentMs u) + max 0 (B - A)))"
      by (simp_all add: reopen_from_completed_any [OF c1] t1)
    show ?thesis
      using complete_from_active_time [OF u2(1,2), of D nc] by (simp add: u2(3))
  qed
  have third: "timeSpentMs (snd (handleStatusChange D nc
         (snd (handleStatusChange C nb
            (snd (handleStatusChange B na u STATUS_COMPLETED)) STATUS_ACTIVE))
         STATUS_COMPLETED))
        = Num (Fin (finite_or_zero (timeSpentMs u) + (B - A) + (D - C)))"
    if u: "\<not> completed u" "activatedAt u = Num (Fin A)" and le: "A \<le> B" "C \<le> D"
    using second [OF u] le by (simp add: max_def)
  from first second third show ?thesis by blast
qed

theorem C7_witness:
  "completed test_t2 \<and> isFinite (timeSpentMs test_t2)
   \<and> snd (handleStatusChange 5000 5001 test_t2 STATUS_ACTIVE)
       = test_t2\<lparr>completed := False, completedAt := Null, activatedAt := Num (Fin 5000)\<rparr>
   \<and> completed legacy_done
   \<and> snd (handleStatusChange 5000 5001 legacy_done STATUS_ACTIVE)
       = legacy_done\<lparr>timeSpentMs := Num (Fin 0), completed := False, completedAt := Null,
           activatedAt := Num (Fin 5000)\<rparr>
   \<and> \<not> completed test_t1 \<and> activatedAt test_t1 = Num (Fin 1000)
   \<and> (1000 :: int) \<le> 4000 \<and> (5000 :: int) \<le> 8000
   \<and> timeSpentMs (snd (handleStatusChange 8000 8001
         (snd (handleStatusChange 5000 5001
            (snd (handleStatusChange 4000 4001 test_t1 STATUS_COMPLETED)) STATUS_ACTIVE))
         STATUS_COMPLETED))
       = Num (Fin 6000)"
proof -
  have h1: "completed test_t2 \<and> isFinite (timeSpentMs test_t2)"
    by (simp add: test_t2_def)
  have h2: "\<not> completed test_t1 \<and> activatedAt test_t1 = Num (Fin 1000)
      \<and> finite_or_zero (timeSpentMs test_t1) = 0"
    by (simp add: test_t1_def)
  have h3: "completed legacy_done \<and> finite_or_zero (timeSpentMs legacy_done) = 0"
    by (simp add: legacy_done_def)
  note typed = C7_reopen_keeps_time [where t = test_t2 and C = 5000 and nn = 5001
      and u = test_t1 and A = 1000 and B = 4000 and D = 8000 and na = 4001 and nb = 5001
      and nc = 8001]
  note legacy = C7_reopen_keeps_time [where t = legacy_done and C = 5000 and nn = 5001
      and u = test_t1 and A = 1000 and B = 4000 and D = 8000 and na = 4001 and nb = 5001
      and nc = 8001]
  from typed h1 have r1: "handleStatusChange 5000 5001 test_t2 STATUS_ACTIVE
      = (Changed STATUS_ACTIVE,
         test_t2\<lparr>completed := False, completedAt := Null, activatedAt := Num (Fin 5000)\<rparr>)"
    by blast
  from legacy h3 have r2: "handleStatusChange 5000 5001 legacy_done STATUS_ACTIVE
      = (Changed STATUS_ACTIVE,
         legacy_done\<lparr>timeSpentMs := Num (Fin (finite_or_zero (timeSpentMs legacy_done))),
           completed := False, completedAt := Null, activatedAt := Num (Fin 5000)\<rparr>)"
    by blast
  have le: "(1000 :: int) \<le> 4000 \<and> (5000 :: int) \<le> 8000" by simp
  from typed h2 le have r3: "timeSpentMs (snd (handleStatusChange 8000 8001
         (snd (handleStatusChange 5000 5001
            (snd (handleStatusChange 4000 4001 test_t1 STATUS_COMPLETED)) STATUS_ACTIVE))
         STATUS_COMPLETED))
       = Num (Fin (finite_or_zero (timeSpentMs test_t1) + (4000 - 1000) + (8000 - 5000)))"
    by blast
  show ?thesis
    using h1 h2 h3 by (simp add: r1 r2 r3)
qed

subsection \<open>The elapsed-time query\<close>

text \<open>
  Claim C10. \<^verbatim>\<open>calcTimeSpentMs\<close> is a function of the task and the instant and
  assigns to no field. For a task whose stored time is the number \<open>n\<close> it returns \<open>n\<close>
  plus \<^verbatim>\<open>Math.max(0, atTimeMs - activatedAt)\<close> exactly when the task is active and
  \<^verbatim>\<open>activatedAt\<close> is a number, and \<open>n\<close> itself otherwise, so \<open>n\<close> for every
  completed task at every instant; the result is never below \<open>n\<close>. With finite
  numbers \<open>T\<close> and \<open>A\<close> the result for an active task is \<open>T + max 0 (at - A)\<close>. A
  stored time that is no number is read as zero.
\<close>

theorem C10_elapsed_query:
  "(timeSpentMs t = Num n \<longrightarrow>
      calcTimeSpentMs (Some t) at
        = (if \<not> completed t \<and> typeof_number (activatedAt t)
           then js_add n (math_max0 (js_sub (Fin at) (toNumber (activatedAt t))))
           else n)
      \<and> (completed t \<longrightarrow> calcTimeSpentMs (Some t) at = n)
      \<and> \<not> js_lt (calcTimeSpentMs (Some t) at) n)
   \<and> (timeSpentMs t = Num (Fin T) \<and> \<not> completed t \<and> activatedAt t = Num (Fin A) \<longrightarrow>
      calcTimeSpentMs (Some t) at = Fin (T + max 0 (at - A))
      \<and> T \<le> T + max 0 (at - A))
   \<and> (\<not> typeof_number (timeSpentMs t) \<longrightarrow>
      calcTimeSpentMs (Some t) at
        = (if \<not> completed t \<and> typeof_number (activatedAt t)
           then js_add (Fin 0) (math_max0 (js_sub (Fin at) (toNumber (activatedAt t))))
           else Fin 0))"
  by (auto simp add: calcTimeSpentMs_def Let_def js_add_max0_not_below)

theorem C10_witness:
  "timeSpentMs test_t1 = Num (Fin 0) \<and> \<not> completed test_t1
   \<and> activatedAt test_t1 = Num (Fin 1000)
   \<and> calcTimeSpentMs (Some test_t1) 2500 = Fin 1500
   \<and> calcTimeSpentMs (Some test_t1) 400 = Fin 0
   \<and> timeSpentMs test_t2 = Num (Fin 3000) \<and> completed test_t2
   \<and> calcTimeSpentMs (Some test_t2) 9000 = Fin 3000
   \<and> \<not> typeof_number (timeSpentMs legacy_done)
   \<and> calcTimeSpentMs (Some legacy_done) 9000 = Fin 0"
proof -
  have h1: "timeSpentMs test_t1 = Num (Fin 0) \<and> \<not> completed test_t1
      \<and> activatedAt test_t1 = Num (Fin 1000)"
    by (simp add: test_t1_def)
  have h2: "timeSpentMs test_t2 = Num (Fin 3000) \<and> completed test_t2"
    by (simp add: test_t2_def)
  have h3: "\<not> typeof_number (timeSpentMs legacy_done) \<and> completed legacy_done"
    by (simp add: legacy_done_def)
  show ?thesis
    using h1 h2 h3
      C10_elapsed_query [where t = test_t1 and n = "Fin 0" and T = 0 and A = 1000 and at = 2500]
      C10_elapsed_query [where t = test_t1 and n = "Fin 0" and T = 0 and A = 1000 and at = 400]
      C10_elapsed_query [where t = test_t2 and n = "Fin 3000" and at = 9000]
      C10_elapsed_query [where t = legacy_done and at = 9000]
    by simp
qed

subsection \<open>The task list\<close>

text \<open>
  An update that names no task of the list changes nothing, and a created task is put at
  the end of the list with the identifier returned.
\<close>

lemma updateTask_not_found:
  "\<forall>x \<in> set tasks. Some (task_id x) \<noteq> d_id data \<Longrightarrow>
   updateTask na nb nc nd data tasks = tasks"
  by (induction tasks) simp_all

lemma updateTask_length: "length (updateTask na nb nc nd data tasks) = length tasks"
  by (induction tasks) simp_all

lemma createTask_appends:
  "snd (createTask new_id now data tasks) = tasks @ [createTask_object new_id now data]"
  "fst (createTask new_id now data tasks) = new_id"
  "task_id (createTask_object new_id now data) = new_id"
  "createdAt (createTask_object new_id now data) = Num (Fin now)"
  "timeSpentMs (createTask_object new_id now data) = Num (Fin 0)"
  by (simp_all add: createTask_def createTask_object_def Let_def)

subsection \<open>Edits that flip the completion flag\<close>

text \<open>
  \<^verbatim>\<open>updateTask\<close> writes the form's \<^verbatim>\<open>completed\<close> into the task before it calls
  \<^verbatim>\<open>handleStatusChange\<close> with the new status, so the call finds the task already in
  that status and returns the no-op object: an edit that flips the flag ends as the
  normalisation of the overwritten task, and no transition runs.
\<close>

lemma updateTask_found_never_transitions:
  "updateTask_found na nb nc nd data t =
     normalizeTaskMetrics na (t\<lparr>title := d_title data, dueDate := d_dueDate data,
        priority := d_priority data, completed := d_completed data\<rparr>)"
  by (cases "d_completed data = completed t")
     (simp_all add: updateTask_found_flip updateTask_found_same_status)

text \<open>
  Claim C1 (the code departs from it). The task of the first console test, active since
  1000 with no time spent, is edited at 4000 with the form's box ticked. The explicit
  toggle adds 3000 to the time and sets \<^verbatim>\<open>completedAt\<close> to 4000; the edit leaves the
  time at 0 and \<^verbatim>\<open>completedAt\<close> null.
\<close>

theorem C1_edit_flip_skips_transition:
  "updateTask_found 4000 4000 4000 4000 edit_t1_completed test_t1
     = test_t1\<lparr>completed := True, activatedAt := Null\<rparr>
   \<and> snd (handleStatusChange 4000 4000 test_t1 STATUS_COMPLETED)
     = test_t1\<lparr>completed := True, timeSpentMs := Num (Fin 3000),
         completedAt := Num (Fin 4000), activatedAt := Null\<rparr>
   \<and> toggleComplete_found 4000 4000 test_t1 = handleStatusChange 4000 4000 test_t1 STATUS_COMPLETED
   \<and> timeSpentMs (updateTask_found 4000 4000 4000 4000 edit_t1_completed test_t1) = Num (Fin 0)
   \<and> completedAt (updateTask_found 4000 4000 4000 4000 edit_t1_completed test_t1) = Null"
  by (simp add: updateTask_found_def handleStatusChange_def normalizeTaskMetrics_def Let_def
      getTaskStatus_def STATUS_ACTIVE_def STATUS_COMPLETED_def edit_t1_completed_def test_t1_def
      toggleComplete_found_def)

subsection \<open>The timestamps and the completion flag\<close>

text \<open>
  Claim C2, as stated, fails on a completed task stored without metrics fields:
  normalisation clears \<^verbatim>\<open>activatedAt\<close> and never sets \<^verbatim>\<open>completedAt\<close>, so both
  are null afterwards.
\<close>

theorem C2_counterexample:
  "\<not> timestamps_mirror_completed (normalizeTaskMetrics 5000 legacy_done)"
  by (simp add: timestamps_mirror_completed_def normalizeTaskMetrics_fields legacy_done_def)

text \<open>
  Claim C2, amended. \<^verbatim>\<open>createTask\<close> builds a task in which exactly one of
  \<^verbatim>\<open>activatedAt\<close> and \<^verbatim>\<open>completedAt\<close> is set, the one the flag names; a
  transition of \<^verbatim>\<open>handleStatusChange\<close> (a recognised target other than the current
  status) leaves any task so. \<^verbatim>\<open>handleStatusChange\<close> in its other cases,
  \<^verbatim>\<open>normalizeTaskMetrics\<close>, and an \<^verbatim>\<open>updateTask\<close> that keeps the flag, keep the
  property of a task that has it. On any task normalisation makes \<^verbatim>\<open>activatedAt\<close>
  set exactly when the task is active, and never sets \<^verbatim>\<open>completedAt\<close>: the field
  keeps its value, an absent one becoming null, so it is set afterwards exactly when it
  was set before.
\<close>

theorem C2_timestamps_mirror_completed:
  "timestamps_mirror_completed (createTask_object new_id now data)
   \<and> ((s = STATUS_ACTIVE \<or> s = STATUS_COMPLETED) \<and> getTaskStatus t \<noteq> s \<longrightarrow>
        timestamps_mirror_completed (snd (handleStatusChange now nn t s)))
   \<and> (timestamps_mirror_completed t \<longrightarrow>
        timestamps_mirror_completed (snd (handleStatusChange now nn t s))
        \<and> timestamps_mirror_completed (normalizeTaskMetrics now t)
        \<and> (d_completed data = completed t \<longrightarrow>
             timestamps_mirror_completed (updateTask_found na nb nc nd data t)))
   \<and> is_set (activatedAt (normalizeTaskMetrics now t)) = (\<not> completed t)
   \<and> completedAt (normalizeTaskMetrics now t)
       = (if completedAt t = Absent then Null else completedAt t)
   \<and> is_set (completedAt (normalizeTaskMetrics now t)) = is_set (completedAt t)"
proof -
  have cmp: "completedAt (normalizeTaskMetrics now t)
       = (if completedAt t = Absent then Null else completedAt t)"
    by (rule normalizeTaskMetrics_fields(4))
  have cmp_set: "is_set (completedAt (normalizeTaskMetrics now t)) = is_set (completedAt t)"
    unfolding cmp by (cases "completedAt t") simp_all
  have upd: "timestamps_mirror_completed (updateTask_found na nb nc nd data t)"
    if inv: "timestamps_mirror_completed t" and same: "d_completed data = completed t"
  proof -
    have "timestamps_mirror_completed (t\<lparr>title := d_title data, dueDate := d_dueDate data,
        priority := d_priority data, completed := d_completed data\<rparr>)"
      using inv same by (simp add: timestamps_mirror_completed_def)
    then show ?thesis
      unfolding updateTask_found_same_status [OF same]
      by (rule normalizeTaskMetrics_mirror)
  qed
  have act: "is_set (activatedAt (normalizeTaskMetrics now t)) = (\<not> completed t)"
    by (simp add: normalizeTaskMetrics_fields) (cases "activatedAt t" rule: isFinite.cases; simp)
  show ?thesis
    using upd act cmp cmp_set createTask_object_mirror [of new_id now data]
      handleStatusChange_transition_mirror [of s t now nn]
      handleStatusChange_mirror [of t now nn s]
      normalizeTaskMetrics_mirror [of t now]
    by blast
qed

theorem C2_witness:
  "timestamps_mirror_completed test_t1
   \<and> getTaskStatus test_t1 \<noteq> STATUS_COMPLETED
   \<and> d_completed edit_t1_title = completed test_t1
   \<and> timestamps_mirror_completed (snd (handleStatusChange 4000 4001 test_t1 STATUS_COMPLETED))
   \<and> timestamps_mirror_completed (normalizeTaskMetrics 4000 test_t1)
   \<and> timestamps_mirror_completed (updateTask_found 4002 4003 4004 4005 edit_t1_title test_t1)
   \<and> timestamps_mirror_completed (createTask_object ''t9'' 4000 edit_t1_title)"
proof -
  have h1: "timestamps_mirror_completed test_t1"
    by (simp add: timestamps_mirror_completed_def test_t1_def)
  have h2: "getTaskStatus test_t1 \<noteq> STATUS_COMPLETED"
    by (simp add: test_t1_def)
  have h3: "d_completed edit_t1_title = completed test_t1"
    by (simp add: test_t1_def edit_t1_title_def)
  show ?thesis
    using h1 h2 h3
      C2_timestamps_mirror_completed [where new_id = "''t9''" and now = 4000
        and data = edit_t1_title and s = STATUS_COMPLETED and t = test_t1 and nn = 4001
        and na = 4002 and nb = 4003 and nc = 4004 and nd = 4005]
    by simp
qed

section \<open>Properties of the calendar\<close>

lemma js_eq_Fin [simp]: "js_eq (Fin a) x = (x = Fin a)"
  by (cases x) auto

lemma js_eq_Fin2 [simp]: "js_eq x (Fin a) = (x = Fin a)"
  by (cases x) auto

lemma js_le_Fin [simp]: "js_le (Fin a) (Fin b) = (a \<le> b)"
  by (auto simp add: js_le_def)

lemma js_ge_Fin [simp]: "js_ge (Fin a) (Fin b) = (b \<le> a)"
  by (simp add: js_ge_def)

lemma round_div_days:
  fixes k r :: int
  assumes "\<bar>r\<bar> < msPerDay div 2"
  shows "(2 * (k * msPerDay + r) + msPerDay) div (2 * msPerDay) = k"
proof (rule int_div_pos_eq)
  show "2 * (k * msPerDay + r) + msPerDay = 2 * msPerDay * k + (2 * r + msPerDay)"
    by (simp add: algebra_simps)
  show "0 \<le> 2 * r + msPerDay" "2 * r + msPerDay < 2 * msPerDay"
    using assms by (simp_all add: msPerDay_def)
qed

text \<open>A date that passed the check of \<^verbatim>\<open>parseYmd\<close> is a valid local day.\<close>

lemma parseYmd_local_day:
  assumes "parseYmd H s = Some dt"
  shows "is_local_day H dt"
proof -
  from assms obtain y m d where
    dt: "dt = newDate H (Fin y) (Fin (m - 1)) (Fin d)"
    and chk: "js_eq (getFullYear dt) (Fin y)" "js_eq (getMonth dt) (Fin (m - 1))"
      "js_eq (getDate dt) (Fin d)"
    by (auto simp add: parseYmd_def Let_def split: option.splits if_splits)
  from chk have eq: "dt = LocalDay y (m - 1) d"
    by (cases dt) simp_all
  have nd: "newDate H (Fin y) (Fin (m - 1)) (Fin d) = LocalDay y (m - 1) d"
    using dt eq by simp
  show ?thesis
    unfolding is_local_day_def startOfDay_def eq by (simp add: nd)
qed

lemma is_local_day_cases:
  assumes "is_local_day H dt"
  obtains y m d where "dt = LocalDay y m d" and "startOfDay H dt = dt"
  using assms by (cases dt) (auto simp add: is_local_day_def)

lemma getTime_lt:
  assumes "tz_ok H" and "a \<noteq> InvalidDate" and "b \<noteq> InvalidDate"
  shows "js_lt (getTime H a) (getTime H b) = (dayOf a < dayOf b)"
proof -
  obtain ya ma da yb mb db where ab: "a = LocalDay ya ma da" "b = LocalDay yb mb db"
    using assms(2,3) by (cases a; cases b) auto
  let ?na = "dayNumber ya ma da" and ?nb = "dayNumber yb mb db"
  have tz: "\<bar>tzShift H ?na - tzShift H ?nb\<bar> < msPerDay div 2"
    using assms(1) by (simp add: tz_ok_def)
  have "(?na * msPerDay + tzShift H ?na < ?nb * msPerDay + tzShift H ?nb) = (?na < ?nb)"
  proof (cases "?na < ?nb")
    case True
    then have "(?na + 1) * msPerDay \<le> ?nb * msPerDay"
      by (intro mult_right_mono) (simp_all add: msPerDay_def)
    with tz True show ?thesis by (simp add: msPerDay_def algebra_simps)
  next
    case False
    show ?thesis
    proof (cases "?na = ?nb")
      case True then show ?thesis by simp
    next
      case ne: False
      with False have "?nb < ?na" by simp
      then have "(?nb + 1) * msPerDay \<le> ?na * msPerDay"
        by (intro mult_right_mono) (simp_all add: msPerDay_def)
      with tz False show ?thesis by (simp add: msPerDay_def algebra_simps)
    qed
  qed
  then show ?thesis by (simp add: ab)
qed

lemma diffDays_local:
  assumes "tz_ok H" and "is_local_day H a" and "is_local_day H b"
  shows "diffDays H a b = Fin (daysAhead a b)"
proof -
  from assms(2) obtain ya ma da where a: "a = LocalDay ya ma da" "startOfDay H a = a"
    by (rule is_local_day_cases)
  from assms(3) obtain yb mb db where b: "b = LocalDay yb mb db" "startOfDay H b = b"
    by (rule is_local_day_cases)
  let ?na = "dayNumber ya ma da" and ?nb = "dayNumber yb mb db"
  have tz: "\<bar>tzShift H ?nb - tzShift H ?na\<bar> < msPerDay div 2"
    using assms(1) by (simp add: tz_ok_def)
  have e: "js_sub (getTime H b) (getTime H a)
      = Fin ((?nb - ?na) * msPerDay + (tzShift H ?nb - tzShift H ?na))"
    by (simp add: a(1) b(1) algebra_simps)
  have "diffDays H a b
      = Fin ((2 * ((?nb - ?na) * msPerDay + (tzShift H ?nb - tzShift H ?na)) + msPerDay)
             div (2 * msPerDay))"
    by (simp only: diffDays_def a(2) b(2) e math_round_div.simps)
  also have "\<dots> = Fin (?nb - ?na)"
    by (simp only: round_div_days [OF tz])
  finally show ?thesis by (simp add: daysAhead_def a(1) b(1))
qed

lemma sameDay_local:
  "a \<noteq> InvalidDate \<Longrightarrow> b \<noteq> InvalidDate \<Longrightarrow> sameDay a b = (a = b)"
  by (cases a; cases b) (auto simp add: sameDay_def)

lemma normDay_in_month:
  "0 \<le> m \<Longrightarrow> m \<le> 11 \<Longrightarrow> normDay y m d = (yy, mm, dd) \<Longrightarrow> in_month yy mm dd"
proof (induction y m d rule: normDay.induct)
  case (1 y m d)
  show ?case
  proof (cases "d < 1")
    case True
    let ?y = "if m = 0 then y - 1 else y" and ?m = "if m = 0 then 11 else m - 1"
    have "normDay ?y ?m (d + daysInMonth ?y ?m) = (yy, mm, dd)"
      using "1.prems"(3) True by (subst (asm) normDay.simps) (simp add: Let_def)
    moreover have "0 \<le> ?m" "?m \<le> 11" using "1.prems"(1,2) by auto
    ultimately show ?thesis
      using "1.IH"(1) [OF True refl refl] by blast
  next
    case False
    show ?thesis
    proof (cases "d > daysInMonth y m")
      case True
      let ?y = "if m = 11 then y + 1 else y" and ?m = "if m = 11 then 0 else m + 1"
      have "normDay ?y ?m (d - daysInMonth y m) = (yy, mm, dd)"
        using "1.prems"(3) False True by (subst (asm) normDay.simps) (simp add: Let_def)
      moreover have "0 \<le> ?m" "?m \<le> 11" using "1.prems"(1,2) by auto
      ultimately show ?thesis
        using "1.IH"(2) [OF False True refl refl] by blast
    next
      case nd: False
      then have "(yy, mm, dd) = (y, m, d)"
        using "1.prems"(3) False by (subst (asm) normDay.simps) simp
      then show ?thesis using False nd "1.prems"(1,2) by (simp add: in_month_def)
    qed
  qed
qed

lemma is_local_day_in_month:
  assumes "is_local_day H (LocalDay y m d)"
  shows "in_month y m d"
proof -
  from assms have "newDate H (Fin y) (Fin m) (Fin d) = LocalDay y m d"
    by (simp add: is_local_day_def startOfDay_def)
  then obtain y0 where "normDay y0 (m mod 12) d = (y, m, d)"
    by (auto simp add: newDate.simps Let_def split: prod.splits if_splits)
  then show ?thesis
    by (rule normDay_in_month [rotated 2]) simp_all
qed

lemma div_step:
  fixes x c :: int
  assumes "0 < c"
  shows "(x + 1) div c = x div c + (if (x + 1) mod c = 0 then 1 else 0)"
proof (cases "x mod c + 1 = c")
  case True
  have "x + 1 = c * (x div c + 1) + 0"
    using True by (simp add: algebra_simps) (metis add.commute mult.commute div_mult_mod_eq add.assoc)
  then have "(x + 1) div c = x div c + 1 \<and> (x + 1) mod c = 0"
    using assms by (metis add.right_neutral div_mult_self4 mod_mult_self4 div_0 mod_0 less_irrefl)
  then show ?thesis by simp
next
  case False
  have r: "0 \<le> x mod c + 1" "x mod c + 1 < c"
    using assms False pos_mod_bound [of c x] pos_mod_sign [of c x] by linarith+
  have nz: "x mod c + 1 \<noteq> 0"
    using pos_mod_sign [OF assms, of x] by linarith
  have e: "x + 1 = c * (x div c) + (x mod c + 1)"
    by simp
  have "(x + 1) div c = x div c" using int_div_pos_eq [OF e r] .
  moreover have "(x + 1) mod c = x mod c + 1" using int_mod_pos_eq [OF e r] .
  ultimately show ?thesis using nz by simp
qed

lemma mod_shift:
  fixes y c k n :: int
  assumes "c * k = n"
  shows "(y - n) mod c = y mod c"
proof -
  have "y - n = y + c * (- k)" using assms by simp
  then show ?thesis by (simp only: mod_mult_self2)
qed

lemma leap_count_step:
  fixes A B C a b c y :: int
  assumes "A' = A + a" and "B' = B + b" and "C' = C + c"
  shows "365 * (y + 1 - 1970) + A' - B' + C'
    = 365 * (y - 1970) + A - B + C + (365 + a - b + c)"
  using assms by simp

lemma dayFromYear_next:
  "dayFromYear (y + 1) = dayFromYear y + (if isLeap y then 366 else 365)"
proof -
  have a: "(y + 1 - 1969) div 4 = (y - 1969) div 4 + (if y mod 4 = 0 then 1 else 0)"
    using div_step [of 4 "y - 1969"] mod_shift [of 4 492 1968 y] by simp
  have b: "(y + 1 - 1901) div 100 = (y - 1901) div 100 + (if y mod 100 = 0 then 1 else 0)"
    using div_step [of 100 "y - 1901"] mod_shift [of 100 19 1900 y] by simp
  have c: "(y + 1 - 1601) div 400 = (y - 1601) div 400 + (if y mod 400 = 0 then 1 else 0)"
    using div_step [of 400 "y - 1601"] mod_shift [of 400 4 1600 y] by simp
  have d: "y mod 100 = 0 \<Longrightarrow> y mod 4 = 0" "y mod 400 = 0 \<Longrightarrow> y mod 100 = 0"
    by (auto simp add: mod_eq_0_iff_dvd elim: dvd_trans [rotated])
  have "(365 + (if y mod 4 = 0 then 1 else 0) - (if y mod 100 = 0 then 1 else 0)
      + (if y mod 400 = 0 then 1 else 0)) = (if isLeap y then 366 else (365::int))"
    using d by (cases "y mod 4 = 0"; cases "y mod 100 = 0"; cases "y mod 400 = 0")
      (simp_all add: isLeap_def)
  then show ?thesis
    unfolding dayFromYear_def by (simp only: leap_count_step [OF a b c])
qed

lemma dayFromYear_mono:
  "y < y' \<Longrightarrow> dayFromYear (y + 1) \<le> dayFromYear y'"
proof (induction y' rule: int_gr_induct)
  case base
  then show ?case by simp
next
  case (step i)
  have "dayFromYear i \<le> dayFromYear (i + 1)"
    by (simp add: dayFromYear_next)
  with step show ?case by simp
qed

lemma month_cases:
  fixes m :: int
  assumes "0 \<le> m" "m \<le> 11"
  obtains "m = 0" | "m = 1" | "m = 2" | "m = 3" | "m = 4" | "m = 5" | "m = 6"
    | "m = 7" | "m = 8" | "m = 9" | "m = 10" | "m = 11"
proof -
  have "m = 0 \<or> m = 1 \<or> m = 2 \<or> m = 3 \<or> m = 4 \<or> m = 5 \<or> m = 6
    \<or> m = 7 \<or> m = 8 \<or> m = 9 \<or> m = 10 \<or> m = 11"
    using assms by presburger
  then show ?thesis using that by blast
qed

lemma daysBeforeMonth_next:
  assumes "0 \<le> m" "m \<le> 10"
  shows "daysBeforeMonth y (m + 1) = daysBeforeMonth y m + daysInMonth y m"
proof -
  from assms have "0 \<le> m" "m \<le> 11" by simp_all
  then show ?thesis
    using assms(2) by (cases m rule: month_cases) (simp_all add: daysBeforeMonth_def daysInMonth_def)
qed

lemma daysInMonth_pos: "0 < daysInMonth y m"
  by (simp add: daysInMonth_def)

lemma month_start_mono:
  assumes "0 \<le> m" "m < m'" "m' \<le> 11"
  shows "daysBeforeMonth y m + daysInMonth y m \<le> daysBeforeMonth y m'"
  using assms(2,3)
proof (induction m' rule: int_gr_induct)
  case base
  then show ?case using daysBeforeMonth_next [of m y] assms(1) by simp
next
  case (step i)
  then have "daysBeforeMonth y (i + 1) = daysBeforeMonth y i + daysInMonth y i"
    using daysBeforeMonth_next [of i y] assms(1) by simp
  with step daysInMonth_pos [of y i] show ?case by simp
qed

lemma day_within_year:
  assumes "in_month y m d"
  shows "0 \<le> daysBeforeMonth y m + d - 1"
    and "dayFromYear y + daysBeforeMonth y m + d - 1 < dayFromYear (y + 1)"
proof -
  have m: "0 \<le> m" "m \<le> 11" and d: "1 \<le> d" "d \<le> daysInMonth y m"
    using assms by (simp_all add: in_month_def)
  have "0 \<le> daysBeforeMonth y m"
    using m by (cases m rule: month_cases) (simp_all add: daysBeforeMonth_def)
  with d show "0 \<le> daysBeforeMonth y m + d - 1" by simp
  have "daysBeforeMonth y m + daysInMonth y m \<le> (if isLeap y then 366 else 365)"
    using m by (cases m rule: month_cases) (simp_all add: daysBeforeMonth_def daysInMonth_def)
  with d show "dayFromYear y + daysBeforeMonth y m + d - 1 < dayFromYear (y + 1)"
    by (simp add: dayFromYear_next)
qed

lemma dayNumber_inj:
  assumes a: "in_month y m d" and b: "in_month y' m' d'"
    and eq: "dayNumber y m d = dayNumber y' m' d'"
  shows "y = y' \<and> m = m' \<and> d = d'"
proof -
  have year: "y = y'"
  proof (rule ccontr)
    assume "y \<noteq> y'"
    then consider "y < y'" | "y' < y" by linarith
    then show False
    proof cases
      case 1
      from day_within_year [OF a] day_within_year [OF b] dayFromYear_mono [OF 1] eq
      show False by (simp add: dayNumber_def)
    next
      case 2
      from day_within_year [OF a] day_within_year [OF b] dayFromYear_mono [OF 2] eq
      show False by (simp add: dayNumber_def)
    qed
  qed
  have month: "m = m'"
  proof (rule ccontr)
    assume "m \<noteq> m'"
    then consider "m < m'" | "m' < m" by linarith
    then show False
    proof cases
      case 1
      with a b month_start_mono [of m m' y] eq year show False
        by (simp add: dayNumber_def in_month_def)
    next
      case 2
      with a b month_start_mono [of m' m y] eq year show False
        by (simp add: dayNumber_def in_month_def)
    qed
  qed
  from eq year month show ?thesis by (simp add: dayNumber_def)
qed

lemma local_day_inj:
  assumes "is_local_day H a" and "is_local_day H b" and "dayOf a = dayOf b"
  shows "a = b"
proof -
  from assms(1) obtain y m d where a: "a = LocalDay y m d"
    by (rule is_local_day_cases)
  from assms(2) obtain y' m' d' where b: "b = LocalDay y' m' d'"
    by (rule is_local_day_cases)
  have "in_month y m d"
    using assms(1) unfolding a by (rule is_local_day_in_month)
  moreover have "in_month y' m' d'"
    using assms(2) unfolding b by (rule is_local_day_in_month)
  ultimately show ?thesis using assms(3)
    unfolding a b using dayNumber_inj [of y m d y' m' d'] by simp
qed

text \<open>
  The day number counts calendar days: it is 0 on 1 January 1970 and grows by one from
  a day to the next, within a month, across months and across years. The date the
  constructor builds from a day outside the month is the day with the same number.
\<close>

lemma dayNumber_epoch: "dayNumber 1970 0 1 = 0"
  by (simp add: dayNumber_def dayFromYear_def daysBeforeMonth_def)

lemma dayNumber_next_day: "dayNumber y m (d + 1) = dayNumber y m d + 1"
  by (simp add: dayNumber_def)

lemma dayNumber_next_month:
  "0 \<le> m \<Longrightarrow> m \<le> 10 \<Longrightarrow> dayNumber y (m + 1) 1 = dayNumber y m (daysInMonth y m) + 1"
  by (simp add: dayNumber_def daysBeforeMonth_next)

lemma dayNumber_next_year: "dayNumber (y + 1) 0 1 = dayNumber y 11 (daysInMonth y 11) + 1"
  by (simp add: dayNumber_def dayFromYear_next daysBeforeMonth_def daysInMonth_def)

lemma normDay_same_day:
  "0 \<le> m \<Longrightarrow> m \<le> 11 \<Longrightarrow> normDay y m d = (yy, mm, dd) \<Longrightarrow>
   dayNumber yy mm dd = dayNumber y m d"
proof (induction y m d rule: normDay.induct)
  case (1 y m d)
  show ?case
  proof (cases "d < 1")
    case True
    let ?y = "if m = 0 then y - 1 else y" and ?m = "if m = 0 then 11 else m - 1"
    have step: "normDay ?y ?m (d + daysInMonth ?y ?m) = (yy, mm, dd)"
      using "1.prems"(3) True by (subst (asm) normDay.simps) (simp add: Let_def)
    have bounds: "0 \<le> ?m" "?m \<le> 11" using "1.prems"(1,2) by auto
    have "dayNumber yy mm dd = dayNumber ?y ?m (d + daysInMonth ?y ?m)"
      using "1.IH"(1) [OF True refl refl bounds step] .
    also have "\<dots> = dayNumber y m d"
    proof (cases "m = 0")
      case True
      then show ?thesis
        using dayNumber_next_year [of "y - 1"] by (simp add: dayNumber_def)
    next
      case False
      with "1.prems"(1,2) show ?thesis
        using dayNumber_next_month [of "m - 1" y] by (simp add: dayNumber_def)
    qed
    finally show ?thesis .
  next
    case False
    show ?thesis
    proof (cases "d > daysInMonth y m")
      case True
      let ?y = "if m = 11 then y + 1 else y" and ?m = "if m = 11 then 0 else m + 1"
      have step: "normDay ?y ?m (d - daysInMonth y m) = (yy, mm, dd)"
        using "1.prems"(3) False True by (subst (asm) normDay.simps) (simp add: Let_def)
      have bounds: "0 \<le> ?m" "?m \<le> 11" using "1.prems"(1,2) by auto
      have "dayNumber yy mm dd = dayNumber ?y ?m (d - daysInMonth y m)"
        using "1.IH"(2) [OF False True refl refl bounds step] .
      also have "\<dots> = dayNumber y m d"
      proof (cases "m = 11")
        case True
        then show ?thesis
          using dayNumber_next_year [of y] by (simp add: dayNumber_def)
      next
        case False
        with "1.prems"(1,2) show ?thesis
          using dayNumber_next_month [of m y] by (simp add: dayNumber_def)
      qed
      finally show ?thesis .
    next
      case nd: False
      then have "(yy, mm, dd) = (y, m, d)"
        using "1.prems"(3) False by (subst (asm) normDay.simps) simp
      then show ?thesis by simp
    qed
  qed
qed

text \<open>
  Every calendar date of a year outside 0 to 99 whose midnight lies in the range of time
  values is a valid local day.
\<close>

lemma is_local_day_intro:
  assumes m: "in_month y m d" and yr: "\<not> (0 \<le> y \<and> y \<le> 99)"
    and range: "\<bar>dayNumber y m d * msPerDay + tzShift H (dayNumber y m d)\<bar> \<le> maxTime"
  shows "is_local_day H (LocalDay y m d)"
proof -
  from m have b: "0 \<le> m" "m \<le> 11" "1 \<le> d" "d \<le> daysInMonth y m"
    by (simp_all add: in_month_def)
  then have "m div 12 = 0" "m mod 12 = m" by simp_all
  moreover have "normDay y m d = (y, m, d)"
    using b by (subst normDay.simps) simp
  moreover have "(if 0 \<le> y \<and> y \<le> 99 then 1900 + y else y) = y"
    using yr by simp
  ultimately have "newDate H (Fin y) (Fin m) (Fin d) = LocalDay y m d"
    using range by (simp add: newDate.simps Let_def)
  then show ?thesis
    by (simp add: is_local_day_def startOfDay_def)
qed


lemma local_day_same_iff:
  assumes "is_local_day H a" and "is_local_day H b"
  shows "(a = b) = (daysAhead a b = 0)"
  using local_day_inj [OF assms] by (auto simp add: daysAhead_def)

lemma is_local_day_valid: "is_local_day H d \<Longrightarrow> d \<noteq> InvalidDate"
  by (simp add: is_local_day_def)

lemma is_local_day_start: "is_local_day H d \<Longrightarrow> startOfDay H d = d"
  by (simp add: is_local_day_def)

lemma getCategory_dated:
  assumes tz: "tz_ok H" and today: "is_local_day H today"
    and active: "\<not> completed t" and due: "parseYmd H (dueDate t) = Some due"
  shows "getCategory H today t =
          (if daysAhead today due < 0 then ''overdue''
           else if daysAhead today due = 0 then ''today''
           else if daysAhead today due \<le> 7 then ''soon'' else ''upcoming'')"
proof -
  have d: "is_local_day H due" using due by (rule parseYmd_local_day)
  have lt: "js_lt (getTime H due) (getTime H today) = (daysAhead today due < 0)"
    using getTime_lt [OF tz is_local_day_valid [OF d] is_local_day_valid [OF today]]
    by (simp add: daysAhead_def)
  have same: "sameDay due today = (daysAhead today due = 0)"
    using sameDay_local [OF is_local_day_valid [OF d] is_local_day_valid [OF today]]
      local_day_same_iff [OF today d] by auto
  have diff: "diffDays H today due = Fin (daysAhead today due)"
    using tz today d by (rule diffDays_local)
  show ?thesis
    unfolding getCategory_def startOfToday_def
    by (simp add: active due Let_def is_local_day_start [OF d] is_local_day_start [OF today]
        lt same diff)
qed

lemma getDeadlineInfo_dated:
  assumes tz: "tz_ok H" and today: "is_local_day H today"
    and active: "\<not> completed t" and due: "parseYmd H (dueDate t) = Some due"
  shows "getDeadlineInfo H today t =
     (if daysAhead today due < 0 then
        \<lparr>label_text = ''Overdue by '' @ js_toString (Fin (- daysAhead today due)) @ '' ''
            @ (if daysAhead today due = - 1 then ''day'' else ''days''),
         cls = ''overdue''\<rparr>
      else if daysAhead today due = 0 then \<lparr>label_text = ''Due today'', cls = ''warning''\<rparr>
      else if daysAhead today due = 1 then \<lparr>label_text = ''Due tomorrow'', cls = ''warning''\<rparr>
      else if daysAhead today due \<le> 3 then
        \<lparr>label_text = ''Due in '' @ js_toString (Fin (daysAhead today due)) @ '' days'',
         cls = ''warning''\<rparr>
      else
        \<lparr>label_text = ''Due in '' @ js_toString (Fin (daysAhead today due)) @ '' days'',
         cls = ''safe''\<rparr>)"
proof -
  have d: "is_local_day H due" using due by (rule parseYmd_local_day)
  have diff: "diffDays H today due = Fin (daysAhead today due)"
    using tz today d by (rule diffDays_local)
  show ?thesis
    unfolding getDeadlineInfo_def startOfToday_def
    by (simp add: active due Let_def is_local_day_start [OF d] is_local_day_start [OF today]
        diff del: js_toString.simps)
qed

text \<open>The text of a natural number is its decimal numeral: read back, it gives the number.\<close>

lemma digits_value_append:
  "digits_value acc (xs @ ys) =
     (case digits_value acc xs of None \<Rightarrow> None | Some v \<Rightarrow> digits_value v ys)"
  by (induction xs arbitrary: acc) simp_all

lemma digit_char_value:
  assumes "n < 10"
  shows "digits_value acc [char_of (48 + n)] = Some (10 * acc + int n)"
proof -
  have "(of_char (char_of (48 + n)) :: nat) = 48 + n"
    using assms by simp
  moreover have "(of_char (char_of (48 + n)) :: int) = int (of_char (char_of (48 + n)))"
    by (simp only: of_nat_of_char)
  ultimately have "(of_char (char_of (48 + n)) :: int) = 48 + int n"
    by simp
  then show ?thesis
    using assms by simp
qed

lemma nat_digits_decimal: "digits_value 0 (nat_digits n) = Some (int n)"
proof (induction n rule: nat_digits.induct)
  case (1 n)
  show ?case
  proof (cases "n < 10")
    case True
    then show ?thesis
      using digit_char_value [of n 0] by (subst nat_digits.simps) simp
  next
    case False
    have "n mod 10 < 10" by simp
    from digit_char_value [OF this, of "int (n div 10)"] "1.IH" [OF False] False
    show ?thesis
      by (subst nat_digits.simps) (simp add: digits_value_append of_nat_mod of_nat_div)
  qed
qed

section \<open>Properties of the sort order\<close>

lemma or_zero_not_NaN [simp]: "or_zero v \<noteq> NaN"
  by (cases v rule: or_zero.cases) simp_all

lemma js_sub_negative:
  "x \<noteq> NaN \<Longrightarrow> y \<noteq> NaN \<Longrightarrow> js_lt (js_sub x y) (Fin 0) = js_lt x y"
  by (cases x; cases y) (simp_all add: js_sub_def)

lemma js_sub_positive:
  "x \<noteq> NaN \<Longrightarrow> y \<noteq> NaN \<Longrightarrow> js_lt (Fin 0) (js_sub x y) = js_lt y x"
  by (cases x; cases y) (simp_all add: js_sub_def)

lemma js_lt_trans: "js_lt a b \<Longrightarrow> js_lt b c \<Longrightarrow> js_lt a c"
  by (cases a; cases b; cases c) simp_all

lemma js_lt_asym: "js_lt a b \<Longrightarrow> \<not> js_lt b a"
  by (cases a; cases b) simp_all

lemma js_lt_total: "a \<noteq> NaN \<Longrightarrow> b \<noteq> NaN \<Longrightarrow> \<not> js_lt a b \<Longrightarrow> \<not> js_lt b a \<Longrightarrow> a = b"
  by (cases a; cases b) simp_all

lemma due_earlier_trans: "due_earlier x y \<Longrightarrow> due_earlier y z \<Longrightarrow> due_earlier x z"
  by (cases x; cases y; cases z) simp_all

lemma due_earlier_irrefl [simp]: "\<not> due_earlier x x"
  by (cases x) simp_all

lemma due_earlier_total: "\<not> due_earlier x y \<Longrightarrow> \<not> due_earlier y x \<Longrightarrow> x = y"
  by (cases x; cases y) simp_all

lemma due_earlier_asym: "due_earlier x y \<Longrightarrow> \<not> due_earlier y x"
  by (cases x; cases y) simp_all

text \<open>The difference of the times of two local days has the sign of the difference of the days.\<close>

lemma getTime_diff_sign:
  assumes tz: "tz_ok H" and a: "is_local_day H a" and b: "is_local_day H b"
  shows "js_lt (js_sub (getTime H a) (getTime H b)) (Fin 0) = (dayOf a < dayOf b)"
    and "js_lt (Fin 0) (js_sub (getTime H a) (getTime H b)) = (dayOf b < dayOf a)"
    and "js_eq (js_sub (getTime H a) (getTime H b)) (Fin 0) = (dayOf a = dayOf b)"
proof -
  from a obtain ta where ta: "getTime H a = Fin ta"
    by (cases a) (simp_all add: is_local_day_def)
  from b obtain tb where tb: "getTime H b = Fin tb"
    by (cases b) (simp_all add: is_local_day_def)
  have ab: "(ta < tb) = (dayOf a < dayOf b)"
    using getTime_lt [OF tz is_local_day_valid [OF a] is_local_day_valid [OF b]]
    by (simp add: ta tb)
  have ba: "(tb < ta) = (dayOf b < dayOf a)"
    using getTime_lt [OF tz is_local_day_valid [OF b] is_local_day_valid [OF a]]
    by (simp add: ta tb)
  show "js_lt (js_sub (getTime H a) (getTime H b)) (Fin 0) = (dayOf a < dayOf b)"
    using ab by (simp add: ta tb)
  show "js_lt (Fin 0) (js_sub (getTime H a) (getTime H b)) = (dayOf b < dayOf a)"
    using ba by (simp add: ta tb)
  show "js_eq (js_sub (getTime H a) (getTime H b)) (Fin 0) = (dayOf a = dayOf b)"
    using ab ba by (simp add: ta tb) linarith
qed

lemma compareTasks_sign:
  assumes tz: "tz_ok H"
  shows "js_lt (compareTasks H a b) (Fin 0) = key_before H a b"
    and "js_lt (Fin 0) (compareTasks H a b) = key_before H b a"
proof -
  let ?created = "js_sub (or_zero (createdAt a)) (or_zero (createdAt b))"
  have created: "js_lt ?created (Fin 0) = js_lt (or_zero (createdAt a)) (or_zero (createdAt b))"
    "js_lt (Fin 0) ?created = js_lt (or_zero (createdAt b)) (or_zero (createdAt a))"
    by (simp_all add: js_sub_negative js_sub_positive)
  have both: "js_lt (compareTasks H a b) (Fin 0) = key_before H a b
      \<and> js_lt (Fin 0) (compareTasks H a b) = key_before H b a"
  proof (cases "pScore (priority b) - pScore (priority a) = 0")
    case False
    then show ?thesis
      by (auto simp add: compareTasks_def key_before_def Let_def)
  next
    case True
    then have p: "pScore (priority a) = pScore (priority b)" by simp
    show ?thesis
    proof (cases "parseYmd H (dueDate a)")
      case None
      note na = this
      show ?thesis
      proof (cases "parseYmd H (dueDate b)")
        case None
        with na p created show ?thesis
          by (simp add: compareTasks_def key_before_def Let_def due_day_def)
      next
        case (Some db)
        with na p show ?thesis
          by (simp add: compareTasks_def key_before_def Let_def due_day_def)
      qed
    next
      case (Some da)
      note sa = this
      have la: "is_local_day H da" using sa by (rule parseYmd_local_day)
      show ?thesis
      proof (cases "parseYmd H (dueDate b)")
        case None
        with sa p show ?thesis
          by (simp add: compareTasks_def key_before_def Let_def due_day_def)
      next
        case (Some db)
        have lb: "is_local_day H db" using Some by (rule parseYmd_local_day)
        note s = getTime_diff_sign [OF tz la lb]
        show ?thesis
        proof (cases "dayOf da = dayOf db")
          case True
          with s(3) have "js_eq (js_sub (getTime H da) (getTime H db)) (Fin 0)" by simp
          with True sa Some p created show ?thesis
            by (simp add: compareTasks_def key_before_def Let_def due_day_def
                is_local_day_start [OF la] is_local_day_start [OF lb])
        next
          case False
          with s(3) have "\<not> js_eq (js_sub (getTime H da) (getTime H db)) (Fin 0)" by simp
          with False sa Some p s(1,2) show ?thesis
            by (simp add: compareTasks_def key_before_def Let_def due_day_def
                is_local_day_start [OF la] is_local_day_start [OF lb])
        qed
      qed
    qed
  qed
  from both show "js_lt (compareTasks H a b) (Fin 0) = key_before H a b"
    and "js_lt (Fin 0) (compareTasks H a b) = key_before H b a"
    by simp_all
qed

lemma key_before_irrefl: "\<not> key_before H a a"
  by (simp add: key_before_def)

lemma key_before_cases:
  assumes "key_before H a b"
  obtains (by_priority) "pScore (priority b) < pScore (priority a)"
  | (by_date) "pScore (priority a) = pScore (priority b)"
      "due_earlier (due_day H a) (due_day H b)"
  | (by_created) "pScore (priority a) = pScore (priority b)" "due_day H a = due_day H b"
      "js_lt (or_zero (createdAt a)) (or_zero (createdAt b))"
  using assms unfolding key_before_def by blast

lemma key_before_trans:
  assumes ab: "key_before H a b" and bc: "key_before H b c"
  shows "key_before H a c"
  using ab
proof (cases rule: key_before_cases)
  case by_priority
  from bc show ?thesis
  proof (cases rule: key_before_cases)
    case by_priority
    with \<open>pScore (priority b) < pScore (priority a)\<close> show ?thesis
      by (simp add: key_before_def)
  next
    case by_date
    with \<open>pScore (priority b) < pScore (priority a)\<close> show ?thesis
      by (simp add: key_before_def)
  next
    case by_created
    with \<open>pScore (priority b) < pScore (priority a)\<close> show ?thesis
      by (simp add: key_before_def)
  qed
next
  case by_date
  note d1 = this
  from bc show ?thesis
  proof (cases rule: key_before_cases)
    case by_priority
    with d1 show ?thesis by (simp add: key_before_def)
  next
    case by_date
    with d1 due_earlier_trans [of "due_day H a" "due_day H b" "due_day H c"] show ?thesis
      by (simp add: key_before_def)
  next
    case by_created
    with d1 show ?thesis by (simp add: key_before_def)
  qed
next
  case by_created
  note c1 = this
  from bc show ?thesis
  proof (cases rule: key_before_cases)
    case by_priority
    with c1 show ?thesis by (simp add: key_before_def)
  next
    case by_date
    with c1 show ?thesis by (simp add: key_before_def)
  next
    case by_created
    with c1 js_lt_trans [of "or_zero (createdAt a)" "or_zero (createdAt b)" "or_zero (createdAt c)"]
    show ?thesis by (simp add: key_before_def)
  qed
qed

lemma key_tied_iff:
  "(\<not> key_before H a b \<and> \<not> key_before H b a) =
     (pScore (priority a) = pScore (priority b) \<and> due_day H a = due_day H b
      \<and> or_zero (createdAt a) = or_zero (createdAt b))"
proof
  assume tied: "\<not> key_before H a b \<and> \<not> key_before H b a"
  have p: "pScore (priority a) = pScore (priority b)"
    using tied unfolding key_before_def by linarith
  have d: "due_day H a = due_day H b"
    using tied p due_earlier_total [of "due_day H a" "due_day H b"]
    unfolding key_before_def by simp
  have "or_zero (createdAt a) = or_zero (createdAt b)"
    using tied p d js_lt_total [of "or_zero (createdAt a)" "or_zero (createdAt b)"]
    unfolding key_before_def by simp
  with p d show "pScore (priority a) = pScore (priority b) \<and> due_day H a = due_day H b
      \<and> or_zero (createdAt a) = or_zero (createdAt b)" by simp
next
  assume "pScore (priority a) = pScore (priority b) \<and> due_day H a = due_day H b
      \<and> or_zero (createdAt a) = or_zero (createdAt b)"
  then show "\<not> key_before H a b \<and> \<not> key_before H b a"
    by (simp add: key_before_def)
qed

text \<open>The order of the specification is the order of the keys.\<close>

lemma created_earlier_or_zero:
  "created_earlier x y = js_lt (or_zero x) (or_zero y)"
  by (cases x rule: instant_rank.cases; cases y rule: instant_rank.cases)
     (auto simp add: created_earlier_def)

lemma instant_rank_or_zero:
  "(instant_rank x = instant_rank y) = (or_zero x = or_zero y)"
  by (cases x rule: instant_rank.cases; cases y rule: instant_rank.cases) simp_all

lemma spec_before_key: "spec_before H a b = key_before H a b"
  by (simp add: spec_before_def key_before_def created_earlier_or_zero)

section \<open>Categories, deadline labels and the sort order: the claims\<close>

text \<open>
  In the claims below \<open>today\<close> is the \<^verbatim>\<open>new Date()\<close> the function reads, taken on a
  valid local day, so that \<^verbatim>\<open>startOfToday()\<close> is \<open>today\<close>; \<open>daysAhead today due\<close>
  counts the calendar days from it to the due date, and is zero exactly when the two are
  the same day (\<open>local_day_same_iff\<close>).
\<close>

lemma example_host_tz_ok: "tz_ok example_host"
  by (simp add: tz_ok_def example_host_def msPerDay_def)

lemma may_1_local: "is_local_day example_host may_1"
  by code_simp

lemma may_7_local: "is_local_day example_host may_7"
  by code_simp

text \<open>
  Claim C4. A completed task is in the bucket \<^verbatim>\<open>completed\<close> whatever its due date. A
  task that is not completed is in \<^verbatim>\<open>upcoming\<close> when \<^verbatim>\<open>parseYmd\<close> rejects its
  due date (missing or unparseable); otherwise in \<^verbatim>\<open>overdue\<close> when the due date is
  before today, in \<^verbatim>\<open>today\<close> when it is today, in \<^verbatim>\<open>soon\<close> when it is 1 to 7
  days ahead, and in \<^verbatim>\<open>upcoming\<close> from 8 days ahead on.
\<close>

theorem C4_category_by_day:
  assumes "tz_ok H" and "is_local_day H today"
  shows "(completed t \<longrightarrow> getCategory H today t = ''completed'')
    \<and> (\<not> completed t \<and> parseYmd H (dueDate t) = None \<longrightarrow>
         getCategory H today t = ''upcoming'')
    \<and> (\<forall>due. \<not> completed t \<and> parseYmd H (dueDate t) = Some due \<longrightarrow>
         getCategory H today t =
          (if daysAhead today due < 0 then ''overdue''
           else if daysAhead today due = 0 then ''today''
           else if daysAhead today due \<le> 7 then ''soon'' else ''upcoming''))"
proof -
  have "completed t \<longrightarrow> getCategory H today t = ''completed''"
    by (simp add: getCategory_def)
  moreover have "\<not> completed t \<and> parseYmd H (dueDate t) = None \<longrightarrow>
         getCategory H today t = ''upcoming''"
    by (simp add: getCategory_def)
  ultimately show ?thesis
    using getCategory_dated [OF assms] by blast
qed

theorem C4_witness:
  "tz_ok example_host \<and> is_local_day example_host may_1
   \<and> completed test_t2 \<and> getCategory example_host may_1 test_t2 = ''completed''
   \<and> \<not> completed no_date \<and> parseYmd example_host (dueDate no_date) = None
   \<and> getCategory example_host may_1 no_date = ''upcoming''
   \<and> \<not> completed test_t1
   \<and> parseYmd example_host (dueDate test_t1) = Some (LocalDay 2024 4 1)
   \<and> getCategory example_host may_1 test_t1 = ''today''
   \<and> \<not> completed sort_high_5
   \<and> parseYmd example_host (dueDate sort_high_5) = Some (LocalDay 2024 4 6)
   \<and> getCategory example_host may_1 sort_high_5 = ''soon''
   \<and> getCategory example_host may_7 sort_high_5 = ''overdue''"
proof -
  note tz = example_host_tz_ok
  have c: "completed test_t2" "\<not> completed no_date" "\<not> completed test_t1"
    "\<not> completed sort_high_5"
    by (simp_all add: test_t2_def no_date_def test_t1_def sort_high_5_def)
  have p: "parseYmd example_host (dueDate no_date) = None"
    "parseYmd example_host (dueDate test_t1) = Some (LocalDay 2024 4 1)"
    "parseYmd example_host (dueDate sort_high_5) = Some (LocalDay 2024 4 6)"
    by code_simp+
  have d: "daysAhead may_1 (LocalDay 2024 4 1) = 0" "daysAhead may_1 (LocalDay 2024 4 6) = 5"
    "daysAhead may_7 (LocalDay 2024 4 6) = - 1"
    by code_simp+
  show ?thesis
    using tz may_1_local c p
      C4_category_by_day [OF tz may_1_local, of test_t2]
      C4_category_by_day [OF tz may_1_local, of no_date]
      C4_category_by_day [OF tz may_1_local, of test_t1]
      C4_category_by_day [OF tz may_1_local, of sort_high_5]
      C4_category_by_day [OF tz may_7_local, of sort_high_5]
    by (simp add: d)
qed

text \<open>
  Claim C9. The deadline descriptor of a completed task is "Completed" with the class
  \<^verbatim>\<open>done\<close>; of a task that is not completed and whose due date \<^verbatim>\<open>parseYmd\<close>
  rejects, "Due date invalid" with \<^verbatim>\<open>safe\<close>. Otherwise, with \<open>delta\<close> the days from
  today to the due date: "Overdue by N days" with \<^verbatim>\<open>overdue\<close> for a negative delta,
  \<open>N = - delta\<close>, the word being "day" exactly when \<open>N = 1\<close>; "Due today" and
  "Due tomorrow" with \<^verbatim>\<open>warning\<close> for 0 and 1; "Due in N days" with \<^verbatim>\<open>warning\<close>
  for 2 and 3 and with \<^verbatim>\<open>safe\<close> from 4 on.
\<close>

theorem C9_deadline_descriptor:
  assumes "tz_ok H" and "is_local_day H today"
  shows "(completed t \<longrightarrow>
        getDeadlineInfo H today t = \<lparr>label_text = ''Completed'', cls = ''done''\<rparr>)
    \<and> (\<not> completed t \<and> parseYmd H (dueDate t) = None \<longrightarrow>
        getDeadlineInfo H today t = \<lparr>label_text = ''Due date invalid'', cls = ''safe''\<rparr>)
    \<and> (\<forall>due. \<not> completed t \<and> parseYmd H (dueDate t) = Some due \<longrightarrow>
        getDeadlineInfo H today t =
         (if daysAhead today due < 0 then
            \<lparr>label_text = ''Overdue by '' @ js_toString (Fin (- daysAhead today due)) @ '' ''
                @ (if daysAhead today due = - 1 then ''day'' else ''days''),
             cls = ''overdue''\<rparr>
          else if daysAhead today due = 0 then
            \<lparr>label_text = ''Due today'', cls = ''warning''\<rparr>
          else if daysAhead today due = 1 then
            \<lparr>label_text = ''Due tomorrow'', cls = ''warning''\<rparr>
          else if daysAhead today due \<le> 3 then
            \<lparr>label_text = ''Due in '' @ js_toString (Fin (daysAhead today due)) @ '' days'',
             cls = ''warning''\<rparr>
          else
            \<lparr>label_text = ''Due in '' @ js_toString (Fin (daysAhead today due)) @ '' days'',
             cls = ''safe''\<rparr>))"
proof -
  have "completed t \<longrightarrow>
        getDeadlineInfo H today t = \<lparr>label_text = ''Completed'', cls = ''done''\<rparr>"
    by (simp add: getDeadlineInfo_def)
  moreover have "\<not> completed t \<and> parseYmd H (dueDate t) = None \<longrightarrow>
        getDeadlineInfo H today t = \<lparr>label_text = ''Due date invalid'', cls = ''safe''\<rparr>"
    by (simp add: getDeadlineInfo_def)
  ultimately show ?thesis
    using getDeadlineInfo_dated [OF assms] by blast
qed

theorem C9_witness:
  "tz_ok example_host \<and> is_local_day example_host may_1 \<and> is_local_day example_host may_7
   \<and> completed test_t2
   \<and> getDeadlineInfo example_host may_1 test_t2 = \<lparr>label_text = ''Completed'', cls = ''done''\<rparr>
   \<and> \<not> completed no_date \<and> parseYmd example_host (dueDate no_date) = None
   \<and> getDeadlineInfo example_host may_1 no_date
       = \<lparr>label_text = ''Due date invalid'', cls = ''safe''\<rparr>
   \<and> \<not> completed sort_high_5
   \<and> parseYmd example_host (dueDate sort_high_5) = Some (LocalDay 2024 4 6)
   \<and> getDeadlineInfo example_host may_1 sort_high_5
       = \<lparr>label_text = ''Due in 5 days'', cls = ''safe''\<rparr>
   \<and> getDeadlineInfo example_host may_7 sort_high_5
       = \<lparr>label_text = ''Overdue by 1 day'', cls = ''overdue''\<rparr>
   \<and> \<not> completed sort_medium_1
   \<and> parseYmd example_host (dueDate sort_medium_1) = Some (LocalDay 2024 4 2)
   \<and> getDeadlineInfo example_host may_1 sort_medium_1
       = \<lparr>label_text = ''Due tomorrow'', cls = ''warning''\<rparr>
   \<and> getDeadlineInfo example_host may_7 sort_medium_1
       = \<lparr>label_text = ''Overdue by 5 days'', cls = ''overdue''\<rparr>"
proof -
  note tz = example_host_tz_ok
  have c: "completed test_t2" "\<not> completed no_date" "\<not> completed sort_high_5"
    "\<not> completed sort_medium_1"
    by (simp_all add: test_t2_def no_date_def sort_high_5_def sort_medium_1_def)
  have p: "parseYmd example_host (dueDate no_date) = None"
    "parseYmd example_host (dueDate sort_high_5) = Some (LocalDay 2024 4 6)"
    "parseYmd example_host (dueDate sort_medium_1) = Some (LocalDay 2024 4 2)"
    by code_simp+
  have d: "daysAhead may_1 (LocalDay 2024 4 6) = 5" "daysAhead may_7 (LocalDay 2024 4 6) = - 1"
    "daysAhead may_1 (LocalDay 2024 4 2) = 1" "daysAhead may_7 (LocalDay 2024 4 2) = - 5"
    by code_simp+
  have s: "js_toString (Fin 5) = ''5''" "js_toString (Fin 1) = ''1''"
    by code_simp+
  show ?thesis
    using tz may_1_local may_7_local c p
      C9_deadline_descriptor [OF tz may_1_local, of test_t2]
      C9_deadline_descriptor [OF tz may_1_local, of no_date]
      C9_deadline_descriptor [OF tz may_1_local, of sort_high_5]
      C9_deadline_descriptor [OF tz may_7_local, of sort_high_5]
      C9_deadline_descriptor [OF tz may_1_local, of sort_medium_1]
      C9_deadline_descriptor [OF tz may_7_local, of sort_medium_1]
    by (simp add: d s del: js_toString.simps)
qed

text \<open>
  Claim C5. A sort by \<^verbatim>\<open>compareTasks\<close> puts \<open>a\<close> before \<open>b\<close> exactly when the
  order of the specification does: by priority first (high before medium before low),
  then by the earlier due day, a valid due date before none and two tasks without one
  tied at that step, then by the earlier \<^verbatim>\<open>createdAt\<close>; so of two tasks of equal
  priority and equal due day with the creation instants \<open>x\<close> and \<open>y\<close> the first goes
  before the second exactly when \<open>x < y\<close>. The order is a strict weak order:
  irreflexive and transitive, with a transitive tie, tied tasks being those equal in
  priority score, due day and creation instant; and consistent, the result for
  \<open>(a, b)\<close> being negative exactly when the result for \<open>(b, a)\<close> is positive.
\<close>

theorem C5_compareTasks_strict_weak_order:
  assumes "tz_ok H"
  shows "sorts_before H a b = spec_before H a b
    \<and> \<not> sorts_before H a a
    \<and> (sorts_before H a b \<and> sorts_before H b c \<longrightarrow> sorts_before H a c)
    \<and> (tied H a b \<and> tied H b c \<longrightarrow> tied H a c)
    \<and> tied H a b =
        (pScore (priority a) = pScore (priority b) \<and> due_day H a = due_day H b
         \<and> instant_rank (createdAt a) = instant_rank (createdAt b))
    \<and> sorts_before H a b = js_gt (compareTasks H b a) (Fin 0)
    \<and> (\<forall>x y. pScore (priority a) = pScore (priority b) \<and> due_day H a = due_day H b
          \<and> createdAt a = Num (Fin x) \<and> createdAt b = Num (Fin y) \<longrightarrow>
          sorts_before H a b = (x < y))
    \<and> pScore ''low'' < pScore ''medium'' \<and> pScore ''medium'' < pScore ''high''"
proof -
  have sk: "sorts_before H x y = key_before H x y" for x y
    using compareTasks_sign(1) [OF assms] by (simp add: sorts_before_def)
  have sb: "sorts_before H x y = spec_before H x y" for x y
    by (simp add: sk spec_before_key)
  have tie: "tied H x y =
     (pScore (priority x) = pScore (priority y) \<and> due_day H x = due_day H y
      \<and> instant_rank (createdAt x) = instant_rank (createdAt y))" for x y
    unfolding tied_def sk instant_rank_or_zero by (rule key_tied_iff)
  have "sorts_before H a b \<and> sorts_before H b c \<longrightarrow> sorts_before H a c"
    unfolding sk using key_before_trans by blast
  moreover have "tied H a b \<and> tied H b c \<longrightarrow> tied H a c"
    unfolding tie by simp
  moreover have "sorts_before H a b = js_gt (compareTasks H b a) (Fin 0)"
    using compareTasks_sign(2) [OF assms, of b a] by (simp add: sk js_gt_def)
  moreover have "\<forall>x y. pScore (priority a) = pScore (priority b) \<and> due_day H a = due_day H b
          \<and> createdAt a = Num (Fin x) \<and> createdAt b = Num (Fin y) \<longrightarrow>
          sorts_before H a b = (x < y)"
    unfolding sb by (simp add: spec_before_def created_earlier_def)
  moreover have "pScore ''low'' < pScore ''medium'' \<and> pScore ''medium'' < pScore ''high''"
    by (simp add: pScore_def)
  moreover have "\<not> sorts_before H a a"
    unfolding sk by (rule key_before_irrefl)
  ultimately show ?thesis
    using sb [of a b] tie [of a b] by blast
qed

theorem C5_witness:
  "tz_ok example_host
   \<and> sorts_before example_host sort_high_2 sort_high_5
   \<and> sorts_before example_host sort_high_5 sort_medium_1
   \<and> sorts_before example_host sort_high_2 sort_medium_1
   \<and> spec_before example_host sort_high_2 sort_high_5
   \<and> js_gt (compareTasks example_host sort_high_5 sort_high_2) (Fin 0)
   \<and> tied example_host sort_high_5 sort_high_5_twin
   \<and> tied example_host sort_high_5_twin sort_high_5
   \<and> tied example_host sort_high_5 sort_high_5
   \<and> pScore (priority sort_high_5) = pScore (priority sort_high_5_later)
   \<and> due_day example_host sort_high_5 = due_day example_host sort_high_5_later
   \<and> createdAt sort_high_5 = Num (Fin 100) \<and> createdAt sort_high_5_later = Num (Fin 150)
   \<and> sorts_before example_host sort_high_5 sort_high_5_later
   \<and> \<not> sorts_before example_host sort_high_5_later sort_high_5"
proof -
  note tz = example_host_tz_ok
  have b: "sorts_before example_host sort_high_2 sort_high_5"
    "sorts_before example_host sort_high_5 sort_medium_1"
    by code_simp+
  have t: "tied example_host sort_high_5 sort_high_5_twin"
    "tied example_host sort_high_5_twin sort_high_5"
    by code_simp+
  have k: "pScore (priority sort_high_5) = pScore (priority sort_high_5_later)"
    "due_day example_host sort_high_5 = due_day example_host sort_high_5_later"
    "createdAt sort_high_5 = Num (Fin 100)" "createdAt sort_high_5_later = Num (Fin 150)"
    by (simp_all add: sort_high_5_later_def sort_high_5_def due_day_def)
  note order = C5_compareTasks_strict_weak_order [OF tz, of sort_high_2 sort_high_5 sort_medium_1]
  note ties = C5_compareTasks_strict_weak_order [OF tz, of sort_high_5 sort_high_5_twin sort_high_5]
  note later = C5_compareTasks_strict_weak_order [OF tz, of sort_high_5 sort_high_5_later sort_high_5]
  note earlier = C5_compareTasks_strict_weak_order [OF tz, of sort_high_5_later sort_high_5 sort_high_5]
  from order b have "spec_before example_host sort_high_2 sort_high_5"
    by blast
  moreover from order b have "sorts_before example_host sort_high_2 sort_medium_1"
    by blast
  moreover from order b have "js_gt (compareTasks example_host sort_high_5 sort_high_2) (Fin 0)"
    by blast
  moreover from ties t have "tied example_host sort_high_5 sort_high_5"
    by blast
  moreover have "sorts_before example_host sort_high_5 sort_high_5_later"
  proof -
    from later k have "sorts_before example_host sort_high_5 sort_high_5_later = ((100 :: int) < 150)"
      by blast
    then show ?thesis by simp
  qed
  moreover have "\<not> sorts_before example_host sort_high_5_later sort_high_5"
  proof -
    from earlier k have "sorts_before example_host sort_high_5_later sort_high_5 = ((150 :: int) < 100)"
      by metis
    then show ?thesis by simp
  qed
  ultimately show ?thesis
    using tz b t k by blast
qed

end
